theory Spec2Isabelle
  imports Complex_Main "HOL-Library.Word"
begin

section \<open>hp6633: control of the HP663x power supply over GPIB\<close>

text \<open>
  This theory embeds the acquisition program \<^verbatim>\<open>hp6633.c\<close>: the ramp and acquisition loop of
  \<^verbatim>\<open>main\<close>, the instrument functions \<^verbatim>\<open>hp663X_open\<close>, \<^verbatim>\<open>hp663X_set\<close>, \<^verbatim>\<open>hp663X_setup\<close>,
  \<^verbatim>\<open>hp663X_read\<close> and \<^verbatim>\<open>hp663X_close\<close>, and the C library behaviour these rely on
  (binary floating point, \<^verbatim>\<open>printf\<close> with \<^verbatim>\<open>%f\<close>, \<^verbatim>\<open>sscanf\<close> with \<^verbatim>\<open>%f\<close>).

  Everything the program receives from outside (results of bus transfers, instrument replies,
  clock readings, key presses) is an explicit input; everything it does to the outside (commands
  put on the bus, text written to the data file and to the plotting pipe, closing of handles) is
  part of the state that the model returns.
\<close>

subsection \<open>Binary floating point\<close>

text \<open>
  A finite \<^verbatim>\<open>float\<close> or \<^verbatim>\<open>double\<close> is represented by the real number it denotes. An operation
  is the exact operation followed by rounding to nearest, ties to even, to \<open>p\<close> significant
  bits (\<open>p = 24\<close> for \<^verbatim>\<open>float\<close>, \<open>p = 53\<close> for \<^verbatim>\<open>double\<close>), each operation evaluated in the
  format of its C type. The smallest exponent \<open>emin\<close> of the format's grid is kept, so
  subnormal numbers round as they do in hardware. Infinities, NaNs and the sign of zero have no
  representation here; the voltages of this program stay far below the overflow threshold.
\<close>

type_synonym cfloat = real
type_synonym cdouble = real

definition pow2 :: "int \<Rightarrow> real" where
  "pow2 e = (if 0 \<le> e then 2 ^ nat e else 1 / 2 ^ nat (- e))"

text \<open>Rounding of a real to the nearest integer, a tie going to the even neighbour.\<close>

definition rne :: "real \<Rightarrow> int" where
  "rne x = (let f = \<lfloor>x\<rfloor>; d = x - of_int f in
     if d < 1 / 2 then f else if 1 / 2 < d then f + 1 else if even f then f else f + 1)"

text \<open>
  The exponent \<open>q\<close> of the grid spacing for a magnitude \<open>a\<close>: the least \<open>q \<ge> emin\<close> with
  \<open>a < 2 ^ (q + p)\<close>. It is searched upwards from 0 for large magnitudes and downwards from 0
  otherwise.
\<close>

function ex_up :: "nat \<Rightarrow> real \<Rightarrow> int \<Rightarrow> int" where
  "ex_up p a e = (if pow2 (e + int p) \<le> a then ex_up p a (e + 1) else e)"
  by pat_completeness auto

function ex_down :: "nat \<Rightarrow> int \<Rightarrow> real \<Rightarrow> int \<Rightarrow> int" where
  "ex_down p emin a e =
     (if emin < e \<and> a < pow2 (e + int p - 1) then ex_down p emin a (e - 1) else e)"
  by pat_completeness auto

termination ex_up
proof (relation "measure (\<lambda>(p, a, e). nat (\<lceil>a\<rceil> - e))", goal_cases)
  case 1
  show ?case by simp
next
  case (2 p a e)
  have "of_int e < pow2 (e + int p)"
  proof (cases "0 \<le> e + int p")
    case True
    have "e \<le> int (nat (e + int p))"
      using True by simp
    also have "\<dots> < 2 ^ nat (e + int p)"
      by (rule of_nat_less_two_power)
    finally have "(of_int e :: real) < of_int (2 ^ nat (e + int p))"
      by (simp only: of_int_less_iff)
    then show ?thesis
      using True by (simp add: pow2_def)
  next
    case False
    then have "(of_int e :: real) < 0"
      by simp
    also have "0 < pow2 (e + int p)"
      by (simp add: pow2_def)
    finally show ?thesis .
  qed
  with 2 have "of_int e < a"
    by simp
  then have "e < \<lceil>a\<rceil>"
    by (simp add: less_ceiling_iff)
  then show ?case
    by simp
qed

termination ex_down
  by (relation "measure (\<lambda>(p, emin, a, e). nat (e - emin))") auto

declare ex_up.simps [simp del] ex_down.simps [simp del]

definition qexp :: "nat \<Rightarrow> int \<Rightarrow> real \<Rightarrow> int" where
  "qexp p emin a = (if pow2 (int p) \<le> a then ex_up p a 0 else ex_down p emin a 0)"

definition fl :: "nat \<Rightarrow> int \<Rightarrow> real \<Rightarrow> real" where
  "fl p emin x = (if x = 0 then 0 else
     let q = pow2 (qexp p emin \<bar>x\<bar>) in of_int (rne (x / q)) * q)"

definition f32 :: "real \<Rightarrow> cfloat" where
  "f32 = fl 24 (- 149)"

definition f64 :: "real \<Rightarrow> cdouble" where
  "f64 = fl 53 (- 1074)"

text \<open>The C constant \<^verbatim>\<open>0.001\<close>, a \<^verbatim>\<open>double\<close>.\<close>

definition c001 :: cdouble where
  "c001 = f64 (1 / 1000)"

subsection \<open>Formatted output: \<^verbatim>\<open>%f\<close> and \<^verbatim>\<open>%d\<close>\<close>

abbreviation NL :: char where "NL \<equiv> CHR 0x0A"
abbreviation TAB :: char where "TAB \<equiv> CHR 0x09"
abbreviation CR :: char where "CR \<equiv> CHR 0x0D"

definition digit_char :: "nat \<Rightarrow> char" where
  "digit_char n = ''0123456789'' ! (n mod 10)"

function dec_digits :: "nat \<Rightarrow> string" where
  "dec_digits n = (if n < 10 then [digit_char n] else dec_digits (n div 10) @ [digit_char n])"
  by pat_completeness auto
termination
  by (relation "measure id") auto

declare dec_digits.simps [simp del]

text \<open>Exactly \<open>k\<close> digits, with leading zeros.\<close>

fun fixed_digits :: "nat \<Rightarrow> nat \<Rightarrow> string" where
  "fixed_digits 0 m = []"
| "fixed_digits (Suc k) m = fixed_digits k (m div 10) @ [digit_char m]"

text \<open>
  \<^verbatim>\<open>printf("%.<d>f", x)\<close>: the exact value of \<open>x\<close> rounded to \<open>d\<close> decimals (ties to even, as
  glibc does in the default rounding mode), a minus sign for a negative \<open>x\<close> even when the
  digits round to zero.
\<close>

definition fmt_f :: "nat \<Rightarrow> real \<Rightarrow> string" where
  "fmt_f d x = (let n = nat (rne (\<bar>x\<bar> * 10 ^ d)) in
     (if x < 0 then ''-'' else '''') @ dec_digits (n div 10 ^ d) @ ''.'' @ fixed_digits d (n mod 10 ^ d))"

subsection \<open>Formatted input: \<^verbatim>\<open>sscanf\<close> with \<^verbatim>\<open>%f\<close>\<close>

definition is_space :: "char \<Rightarrow> bool" where
  "is_space c = (c = CHR '' '' \<or> (9::nat) \<le> of_char c \<and> of_char c \<le> (13::nat))"

definition is_digit :: "char \<Rightarrow> bool" where
  "is_digit c = ((48::nat) \<le> of_char c \<and> of_char c \<le> (57::nat))"

definition digit_val :: "char \<Rightarrow> nat" where
  "digit_val c = of_char c - 48"

definition digits_val :: "string \<Rightarrow> nat" where
  "digits_val ds = foldl (\<lambda>a c. 10 * a + digit_val c) 0 ds"

text \<open>An optional sign: the factor it stands for and the text after it.\<close>

fun scan_sign :: "string \<Rightarrow> int \<times> string" where
  "scan_sign [] = (1, [])"
| "scan_sign (c # cs) =
     (if c = CHR ''-'' then (- 1, cs) else if c = CHR ''+'' then (1, cs) else (1, c # cs))"

text \<open>
  An optional exponent part \<^verbatim>\<open>e\<close>/\<^verbatim>\<open>E\<close>, optional sign, at least one digit; without a digit
  nothing is consumed.
\<close>

definition scan_exp :: "string \<Rightarrow> int \<times> string" where
  "scan_exp s = (case s of
       [] \<Rightarrow> (0, s)
     | c # cs \<Rightarrow>
         if c = CHR ''e'' \<or> c = CHR ''E'' then
           (let (sg, r) = scan_sign cs; ds = takeWhile is_digit r in
            if ds = [] then (0, s) else (sg * int (digits_val ds), dropWhile is_digit r))
         else (0, s))"

definition pow10 :: "int \<Rightarrow> real" where
  "pow10 e = (if 0 \<le> e then 10 ^ nat e else 1 / 10 ^ nat (- e))"

text \<open>
  A decimal floating constant at the start of the text: optional sign, digits with an optional
  point (at least one digit in all), optional exponent. The result is the exact value and the
  text that follows; \<open>None\<close> when no number starts the text.
\<close>

definition scan_decimal :: "string \<Rightarrow> (real \<times> string) option" where
  "scan_decimal s =
     (let (sg, r) = scan_sign s;
          ip = takeWhile is_digit r; r1 = dropWhile is_digit r;
          (fp, r2) = (case r1 of
              c # cs \<Rightarrow> if c = CHR ''.'' then (takeWhile is_digit cs, dropWhile is_digit cs)
                        else ([], r1)
            | [] \<Rightarrow> ([], r1))
      in if ip = [] \<and> fp = [] then None
         else (let (ex, r3) = scan_exp r2 in
           Some (of_int sg * of_nat (digits_val (ip @ fp)) / 10 ^ length fp * pow10 ex, r3)))"

text \<open>
  \<^verbatim>\<open>sscanf(buffer, "%f", &v)\<close>: white space is skipped, the longest decimal constant is
  converted and rounded to \<^verbatim>\<open>float\<close>. \<open>None\<close> is the matching failure (\<^verbatim>\<open>sscanf\<close> returns 0 or
  \<^verbatim>\<open>EOF\<close> and stores nothing). Hexadecimal constants and the spellings of infinity and NaN,
  which \<^verbatim>\<open>sscanf\<close> also accepts, are outside this model.
\<close>

definition sscanf_f :: "string \<Rightarrow> cfloat option" where
  "sscanf_f s = map_option (\<lambda>(v, r). f32 v) (scan_decimal (dropWhile is_space s))"

subsection \<open>State of the program and of its surroundings\<close>

text \<open>
  A stdio stream opened for writing. \<open>written\<close> holds the text of every \<^verbatim>\<open>fprintf\<close> call in
  order, one list element per call; \<open>synced\<close> is what the last \<^verbatim>\<open>fflush\<close> or \<^verbatim>\<open>fclose\<close>
  handed to the operating system; \<open>is_open\<close> tells whether the stream is still open.
\<close>

record cfile =
  written :: "string list"
  synced :: "string list"
  is_open :: bool

definition fopen_w :: cfile where
  "fopen_w = \<lparr>written = [], synced = [], is_open = True\<rparr>"

definition fprintf :: "cfile \<Rightarrow> string \<Rightarrow> cfile" where
  "fprintf f s = f\<lparr>written := written f @ [s]\<rparr>"

definition fflush :: "cfile \<Rightarrow> cfile" where
  "fflush f = f\<lparr>synced := written f\<rparr>"

definition fclose :: "cfile \<Rightarrow> cfile" where
  "fclose f = f\<lparr>synced := written f, is_open := False\<rparr>"

text \<open>
  The pipe to gnuplot: \<^verbatim>\<open>gp\<close> is \<^verbatim>\<open>NULL\<close>, or open with the lines sent so far, or closed by
  \<^verbatim>\<open>pclose\<close>. \<^verbatim>\<open>main\<close> clears \<^verbatim>\<open>do_graph\<close> whenever the pipe is not open, and writes to the
  pipe only under \<^verbatim>\<open>do_graph\<close>.
\<close>

datatype pipe = No_pipe | Pipe_open "string list" | Pipe_closed "string list"

fun gp_put :: "pipe \<Rightarrow> string \<Rightarrow> pipe" where
  "gp_put (Pipe_open xs) s = Pipe_open (xs @ [s])"
| "gp_put p s = p"

text \<open>\<^verbatim>\<open>if (gp) pclose(gp);\<close>\<close>

fun pclose_if :: "pipe \<Rightarrow> pipe" where
  "pclose_if (Pipe_open xs) = Pipe_closed xs"
| "pclose_if p = p"

text \<open>
  The variables of \<^verbatim>\<open>main\<close> under their own names, followed by the surroundings: \<open>bus\<close> lists
  the command strings handed to \<^verbatim>\<open>ibwrt\<close> in order (also those whose transfer failed), and
  \<open>kbd_raw\<close> tells whether the terminal is in the raw mode set by \<^verbatim>\<open>init_keyboard\<close>.
  The flags of type \<^verbatim>\<open>char\<close> are booleans; \<^verbatim>\<open>loop\<close> is an \<^verbatim>\<open>unsigned long\<close> of 64 bits.
  Output to the terminal (\<^verbatim>\<open>stdout\<close>, \<^verbatim>\<open>stderr\<close>) is not part of the model.
\<close>

record state =
  do_graph :: bool
  do_keypress :: bool
  do_ocp :: bool
  do_reset :: bool
  dramp :: bool
  dramp_avail :: bool
  inst :: int
  pad :: int
  key :: int
  do_flush :: int
  delay :: int
  ramp :: int
  loop :: nat
  t0 :: cdouble
  volt :: cfloat
  amp :: cfloat
  ramp_volt :: cfloat
  set_volt :: cfloat
  max_volt :: cfloat
  set_limvolt :: cfloat
  set_amp :: cfloat
  comment :: string
  filename :: string
  outfile :: cfile
  gp :: pipe
  bus :: "string list"
  kbd_raw :: bool

abbreviation (input) VERSION :: string where "VERSION \<equiv> ''V20250811''"
abbreviation (input) ESC :: int where "ESC \<equiv> 27"
abbreviation (input) ERR_INST :: int where "ERR_INST \<equiv> 5"
abbreviation (input) MAXVOLT :: real where "MAXVOLT \<equiv> 50"
abbreviation (input) MAXAMP :: real where "MAXAMP \<equiv> 2"

text \<open>
  The variables as their declarations initialise them, before any option is read. C leaves
  \<^verbatim>\<open>volt\<close>, \<^verbatim>\<open>amp\<close>, \<^verbatim>\<open>inst\<close>, \<^verbatim>\<open>key\<close> and \<^verbatim>\<open>t0\<close> indeterminate; they are 0 here, and no
  theorem below relies on that. A command line is a record update of \<open>startup\<close>: the options
  \<^verbatim>\<open>-u 0 -U 5 -r 1000 -R\<close> give
  \<open>startup\<lparr>set_volt := 0, max_volt := 5, ramp := 1000, dramp := True\<rparr>\<close>.
\<close>

definition startup :: state where
  "startup = \<lparr>do_graph = True, do_keypress = True, do_ocp = False, do_reset = True,
     dramp = False, dramp_avail = False, inst = 0, pad = 5, key = 0, do_flush = 100, delay = 10,
     ramp = 0, loop = 0, t0 = 0, volt = 0, amp = 0, ramp_volt = 0, set_volt = 0, max_volt = 0,
     set_limvolt = MAXVOLT, set_amp = MAXAMP, comment = [], filename = [],
     outfile = \<lparr>written = [], synced = [], is_open = False\<rparr>, gp = No_pipe, bus = [],
     kbd_raw = False\<rparr>"

text \<open>
  The option values that pass the checks of the command line (lines 223 to 304): every other
  combination makes \<^verbatim>\<open>main\<close> return 1 before anything is opened.
\<close>

definition valid_options :: "state \<Rightarrow> bool" where
  "valid_options st =
     (0 \<le> set_volt st \<and> set_volt st \<le> MAXVOLT \<and> 0 \<le> max_volt st \<and> max_volt st \<le> MAXVOLT \<and>
      0 \<le> set_limvolt st \<and> set_limvolt st \<le> MAXVOLT \<and> 0 \<le> set_amp st \<and> set_amp st \<le> MAXAMP \<and>
      (ramp st = 0 \<or> 1 \<le> \<bar>ramp st\<bar> \<and> \<bar>ramp st\<bar> \<le> 1000) \<and>
      1 \<le> do_flush st \<and> do_flush st \<le> 10000 \<and> 0 \<le> pad st \<and> pad st \<le> 30 \<and>
      0 \<le> delay st \<and> delay st \<le> 600 \<and>
      (ramp st = 0 \<or> set_volt st \<le> max_volt st \<and> max_volt st \<le> set_limvolt st))"

text \<open>What the surroundings supply during one pass of the acquisition loop.\<close>

datatype reply = Wrt_err | Rd_err | Reply string

record cycle_in =
  vset_err :: bool
  vout_in :: reply
  iout_in :: reply
  clock :: cdouble
  kbd :: "int option"

text \<open>
  \<open>vset_err\<close>: \<^verbatim>\<open>ibwrt\<close> reports \<^verbatim>\<open>ERR\<close> for the \<^verbatim>\<open>VSET\<close> command (read only when ramping).
  \<open>vout_in\<close>, \<open>iout_in\<close>: the course of the two queries, \<open>Wrt_err\<close> when sending the query
  fails, \<open>Rd_err\<close> when \<^verbatim>\<open>ibrd\<close> fails, \<open>Reply bytes\<close> with the bytes the instrument returns.
  \<open>clock\<close>: the value of \<^verbatim>\<open>timeinfo()\<close> after the wait. \<open>kbd\<close>: the key that \<^verbatim>\<open>kbhit\<close> and
  \<^verbatim>\<open>readch\<close> deliver at the end of the pass, if one was pressed.
\<close>

record env =
  popen_ok :: bool
  ibdev_ud :: int
  open_err :: bool
  setup_err :: bool
  start_ctime :: string
  start_clock :: cdouble
  cycles :: "cycle_in list"
  stop_ctime :: string
  close_err :: bool
  final_key :: bool

text \<open>
  \<open>popen_ok\<close>: \<^verbatim>\<open>popen\<close> succeeds. \<open>ibdev_ud\<close>: the descriptor \<^verbatim>\<open>ibdev\<close> returns. \<open>open_err\<close>,
  \<open>setup_err\<close>, \<open>close_err\<close>: \<^verbatim>\<open>ibwrt\<close> reports \<^verbatim>\<open>ERR\<close> for the reset sent by \<^verbatim>\<open>hp663X_open\<close>,
  for the setup command, for the reset sent by \<^verbatim>\<open>hp663X_close\<close>. \<open>start_ctime\<close>,
  \<open>stop_ctime\<close>: the strings \<^verbatim>\<open>ctime\<close> returns. \<open>start_clock\<close>: \<^verbatim>\<open>timeinfo()\<close> before the loop.
  \<open>cycles\<close>: the inputs of the passes of the loop, in order. \<open>final_key\<close>: a key is pressed
  at some time while the program waits for one at the end.
\<close>

subsection \<open>The instrument functions\<close>

abbreviation reset_cmd :: string where
  "reset_cmd \<equiv> ''OUT 0;RST;CLR'' @ [NL]"

text \<open>
  \<^verbatim>\<open>hp663X_open\<close>: 0 on error, else the descriptor. A reset is sent when requested.
\<close>

definition hp663X_open :: "int \<Rightarrow> bool \<Rightarrow> bool \<Rightarrow> string list \<Rightarrow> int \<times> string list" where
  "hp663X_open ud werr reset b =
     (if ud < 0 then (0, b)
      else if reset then (if werr then (0, b @ [reset_cmd]) else (ud, b @ [reset_cmd]))
      else (ud, b))"

text \<open>\<^verbatim>\<open>hp663X_set\<close>: sends \<^verbatim>\<open>"%s %f\n"\<close>; 1 if the transfer went through, 0 on error.\<close>

definition hp663X_set :: "bool \<Rightarrow> string \<Rightarrow> cfloat \<Rightarrow> string list \<Rightarrow> int \<times> string list" where
  "hp663X_set werr cmd val b =
     (let buf = cmd @ '' '' @ fmt_f 6 val @ [NL] in (if werr then 0 else 1, b @ [buf]))"

text \<open>\<^verbatim>\<open>hp663X_setup\<close>: sends \<^verbatim>\<open>"VSET %f;ISET %f;OVSET %f;OCP %d\n"\<close>.\<close>

definition hp663X_setup ::
  "bool \<Rightarrow> cfloat \<Rightarrow> cfloat \<Rightarrow> cfloat \<Rightarrow> bool \<Rightarrow> string list \<Rightarrow> int \<times> string list" where
  "hp663X_setup werr v a limvolt ocp b =
     (let buf = ''VSET '' @ fmt_f 6 v @ '';ISET '' @ fmt_f 6 a @ '';OVSET '' @ fmt_f 6 limvolt @
                '';OCP '' @ (if ocp then ''1'' else ''0'') @ [NL]
      in (if werr then 0 else 1, b @ [buf]))"

text \<open>
  \<^verbatim>\<open>hp663X_read\<close>: sends the query, reads at most 11 bytes and ends the text two bytes before
  the end of what was read (\<^verbatim>\<open>result[ibcnt-2] = 0\<close>). The C string left in \<^verbatim>\<open>result\<close> stops at
  the first zero byte (\<open>reply_text\<close>). With fewer than two bytes read, the zero byte is stored in
  front of the buffer: \<open>Read_fault\<close>.
\<close>

datatype read_result = Read_err | Read_ok string | Read_fault

definition reply_text :: "string \<Rightarrow> string" where
  "reply_text bytes =
     (let got = take 11 bytes; ibcnt = length got in
      takeWhile (\<lambda>c. c \<noteq> CHR 0x00) (take (ibcnt - 2) got))"

definition hp663X_read :: "reply \<Rightarrow> string \<Rightarrow> string list \<Rightarrow> read_result \<times> string list" where
  "hp663X_read r what b =
     (case r of
        Wrt_err \<Rightarrow> (Read_err, b @ [what @ [NL]])
      | Rd_err \<Rightarrow> (Read_err, b @ [what @ [NL]])
      | Reply bytes \<Rightarrow>
          (if length (take 11 bytes) < 2 then (Read_fault, b @ [what @ [NL]])
           else (Read_ok (reply_text bytes), b @ [what @ [NL]])))"

text \<open>\<^verbatim>\<open>hp663X_close\<close>: sends the reset when requested; 0 on error, else 1.\<close>

definition hp663X_close :: "bool \<Rightarrow> bool \<Rightarrow> string list \<Rightarrow> int \<times> string list" where
  "hp663X_close werr reset b =
     (if reset then (if werr then 0 else 1, b @ [reset_cmd]) else (1, b))"


subsection \<open>One pass of the acquisition loop\<close>

text \<open>
  How a part of the loop body ends: control goes on to the next statement (\<open>Continue\<close>), the
  loop is left by \<^verbatim>\<open>break\<close> (\<open>Break\<close>), \<^verbatim>\<open>main\<close> returns from inside the loop (\<open>Return\<close> with the
  exit code), or the program leaves defined behaviour (\<open>Fault\<close>).
\<close>

datatype 'a step = Continue 'a | Break 'a | Return int 'a | Fault 'a

fun and_then :: "'a step \<Rightarrow> ('a \<Rightarrow> 'a step) \<Rightarrow> 'a step" where
  "and_then (Continue s) f = f s"
| "and_then (Break s) f = Break s"
| "and_then (Return c s) f = Return c s"
| "and_then (Fault s) f = Fault s"

text \<open>\<^verbatim>\<open>ramp_volt += ramp*0.001\<close>: the product and the sum are \<^verbatim>\<open>double\<close>, the result a \<^verbatim>\<open>float\<close>.\<close>

definition add_ramp :: "cfloat \<Rightarrow> int \<Rightarrow> cfloat" where
  "add_ramp v r = f32 (f64 (v + f64 (of_int r * c001)))"

text \<open>The test of line 424: the ramp has passed its end.\<close>

definition limit_reached :: "state \<Rightarrow> bool" where
  "limit_reached st =
     (0 < ramp st \<and> max_volt st < ramp_volt st \<or> ramp st < 0 \<and> ramp_volt st < set_volt st)"

text \<open>
  The failure exit inside the loop (lines 444 to 449, 459 to 464, 471 to 476):
  \<^verbatim>\<open>if (gp) pclose(gp); fclose(outfile); close_keyboard(); return ERR_INST;\<close>
\<close>

definition quit_loop :: "state \<Rightarrow> state step" where
  "quit_loop st =
     Return ERR_INST (st\<lparr>gp := pclose_if (gp st), outfile := fclose (outfile st), kbd_raw := False\<rparr>)"

text \<open>
  Lines 433 to 438, the reversal of a dual ramp: \<^verbatim>\<open>ramp\<close> is inverted, \<^verbatim>\<open>dramp\<close> cleared so
  that the loop is left the next time the limit is reached, and two empty lines are written to
  the data file.
\<close>

definition reverse :: "state \<Rightarrow> state" where
  "reverse st =
     st\<lparr>ramp := - ramp st, dramp_avail := True, dramp := False,
        outfile := fprintf (outfile st) [NL, NL]\<rparr>"

text \<open>Lines 441 and 442: the setpoint is advanced and sent with \<^verbatim>\<open>VSET\<close>.\<close>

definition step_and_send :: "bool \<Rightarrow> state \<Rightarrow> int \<times> state" where
  "step_and_send werr st =
     (let st1 = st\<lparr>ramp_volt := add_ramp (ramp_volt st) (ramp st)\<rparr>;
          (ok, b) = hp663X_set werr ''VSET'' (ramp_volt st1) (bus st1)
      in (ok, st1\<lparr>bus := b\<rparr>))"

text \<open>
  Lines 421 to 451. The limit is tested before the setpoint is advanced. When it is reached,
  a single ramp leaves the loop and a dual ramp reverses; then, in the same pass, the setpoint
  is advanced and sent.
\<close>

definition ramp_section :: "bool \<Rightarrow> state \<Rightarrow> state step" where
  "ramp_section werr st =
     (if ramp st = 0 then Continue st
      else if limit_reached st \<and> \<not> dramp st then Break (st\<lparr>key := ESC\<rparr>)
      else
        (let (ok, st1) = step_and_send werr (if limit_reached st then reverse st else st)
         in if ok = 0 then quit_loop st1 else Continue st1))"

text \<open>
  \<^verbatim>\<open>sscanf(buffer, "%f", &v)\<close> as \<^verbatim>\<open>main\<close> uses it (lines 466 and 478): the value \<^verbatim>\<open>sscanf\<close>
  returns is not looked at, so when nothing matches the variable keeps the value it had.
\<close>

definition scan_into :: "string \<Rightarrow> cfloat \<Rightarrow> cfloat" where
  "scan_into buffer old = (case sscanf_f buffer of Some v \<Rightarrow> v | None \<Rightarrow> old)"

text \<open>The data line of line 482.\<close>

definition sample_line :: "cdouble \<Rightarrow> cfloat \<Rightarrow> cfloat \<Rightarrow> string" where
  "sample_line t1 v a = fmt_f 4 t1 @ [TAB] @ fmt_f 4 v @ [TAB] @ fmt_f 4 a @ [NL]"

text \<open>
  Lines 453 to 483: the wait, the time stamp in minutes, the two queries, the count and the
  data line.
\<close>

definition sample_section :: "cycle_in \<Rightarrow> state \<Rightarrow> state step" where
  "sample_section i st =
     (let t1 = f64 (f64 (clock i - t0 st) / 60);
          (res, b) = hp663X_read (vout_in i) ''VOUT?'' (bus st);
          st1 = st\<lparr>bus := b\<rparr>
      in case res of
           Read_err \<Rightarrow> quit_loop st1
         | Read_fault \<Rightarrow> Fault st1
         | Read_ok buffer \<Rightarrow>
             (let st2 = st1\<lparr>volt := scan_into buffer (volt st1)\<rparr>;
                  (res, b) = hp663X_read (iout_in i) ''IOUT?'' (bus st2);
                  st3 = st2\<lparr>bus := b\<rparr>
              in case res of
                   Read_err \<Rightarrow> quit_loop st3
                 | Read_fault \<Rightarrow> Fault st3
                 | Read_ok buffer \<Rightarrow>
                     (let st4 = st3\<lparr>amp := scan_into buffer (amp st3),
                                    loop := (loop st3 + 1) mod 2 ^ 64\<rparr>
                      in Continue (st4\<lparr>outfile :=
                           fprintf (outfile st4) (sample_line t1 (volt st4) (amp st4))\<rparr>))))"

abbreviation SQ :: char where "SQ \<equiv> CHR 0x27"

text \<open>The plot command of lines 491 to 499 and 528 to 536.\<close>

definition plot_cmd :: "state \<Rightarrow> string" where
  "plot_cmd st =
     (if ramp st \<noteq> 0 then
        (if dramp_avail st then
           ''plot '' @ [SQ] @ filename st @ [SQ] @ '' using 2:3 index 0 ti '' @ [SQ] @
           ''I vs. U (1)'' @ [SQ] @ '', '' @ [SQ, SQ] @ '' u 2:3 index 1 ti '' @ [SQ] @
           ''I vs. U (2)'' @ [SQ, NL]
         else
           ''plot '' @ [SQ] @ filename st @ [SQ] @ '' using 2:3 ti '' @ [SQ] @
           ''I vs. U (1)'' @ [SQ, NL])
      else
        ''plot '' @ [SQ] @ filename st @ [SQ] @ '' using 1:2 title '' @ [SQ] @ ''Voltage'' @ [SQ] @
        '', '' @ [SQ, SQ] @ '' u 1:3 axis x1y2 title '' @ [SQ] @ ''Current'' @ [SQ, NL])"

text \<open>
  \<^verbatim>\<open>loop % do_flush\<close>: \<^verbatim>\<open>do_flush\<close> is converted to \<^verbatim>\<open>unsigned long\<close>; division by zero is
  undefined.
\<close>

definition flush_divisor :: "int \<Rightarrow> nat" where
  "flush_divisor d = nat (d mod 2 ^ 64)"

text \<open>Lines 485 to 502: every \<^verbatim>\<open>do_flush\<close> samples the file is flushed and the plot redrawn.\<close>

definition refresh_section :: "state \<Rightarrow> state step" where
  "refresh_section st =
     (if flush_divisor (do_flush st) = 0 then Fault st
      else if loop st mod flush_divisor (do_flush st) = 0 then
        (let st1 = st\<lparr>outfile := fflush (outfile st)\<rparr> in
         Continue (if do_graph st1 then st1\<lparr>gp := gp_put (gp st1) (plot_cmd st1)\<rparr> else st1))
      else Continue st)"

text \<open>Lines 504 to 506.\<close>

definition poll_section :: "int option \<Rightarrow> state \<Rightarrow> state" where
  "poll_section k st = (case k of None \<Rightarrow> st | Some c \<Rightarrow> st\<lparr>key := c\<rparr>)"

definition cycle :: "state \<Rightarrow> cycle_in \<Rightarrow> state step" where
  "cycle st i =
     and_then (and_then (and_then (ramp_section (vset_err i) st) (sample_section i))
       refresh_section) (\<lambda>s. Continue (poll_section (kbd i) s))"

text \<open>The loop condition of line 508: \<^verbatim>\<open>(key != 'q') && (key != ESC)\<close>.\<close>

definition go_on :: "state \<Rightarrow> bool" where
  "go_on st = (key st \<noteq> 113 \<and> key st \<noteq> ESC)"

text \<open>
  The \<^verbatim>\<open>do ... while\<close> loop of lines 420 to 508, run on the inputs of its passes. \<open>Break\<close> is the
  loop left at its end or by \<^verbatim>\<open>break\<close>. \<open>Continue\<close> says that the inputs are used up while the
  loop is still running.
\<close>

fun acquire :: "state \<Rightarrow> cycle_in list \<Rightarrow> state step" where
  "acquire st [] = Continue st"
| "acquire st (i # ins) =
     (case cycle st i of
        Continue st' \<Rightarrow> if go_on st' then acquire st' ins else Break st'
      | r \<Rightarrow> r)"

subsection \<open>The program around the loop\<close>

text \<open>
  Lines 314 to 351, from the point where the output file has been opened: with \<^verbatim>\<open>delay\<close> 0
  nothing is opened and graphics and the final reset are switched off; otherwise gnuplot is
  started, and graphics are switched off when that fails.
\<close>

definition prepare :: "bool \<Rightarrow> state \<Rightarrow> state" where
  "prepare pok st =
     (if delay st = 0 then st\<lparr>do_graph := False, do_reset := False\<rparr>
      else
        (let st1 = st\<lparr>outfile := fopen_w\<rparr> in
         if pok then st1\<lparr>gp := Pipe_open []\<rparr> else st1\<lparr>gp := No_pipe, do_graph := False\<rparr>))"

text \<open>Lines 353 to 362.\<close>

definition plot_defaults :: "state \<Rightarrow> state" where
  "plot_defaults st =
     (if do_graph st then
        st\<lparr>gp := gp_put (gp_put (gp_put (gp st)
          (''set mouse;set mouse labels; set style data lines; set title '' @ [SQ] @ filename st @
           [SQ, NL]))
          (''set grid xt; set grid yt'' @ [NL]))
          (if ramp st \<noteq> 0
           then ''set xlabel '' @ [SQ] @ ''V'' @ [SQ] @ ''; set ylabel '' @ [SQ] @ ''A'' @ [SQ, NL]
           else ''set xlabel '' @ [SQ] @ ''min'' @ [SQ] @ ''; set ylabel '' @ [SQ] @ ''V'' @ [SQ] @
                ''; set y2label '' @ [SQ] @ ''A'' @ [SQ] @ ''; set y2tics'' @ [NL])\<rparr>
      else st)"

text \<open>Lines 404 to 409: the header of the data file.\<close>

definition write_header :: "string \<Rightarrow> state \<Rightarrow> state" where
  "write_header ct st =
     st\<lparr>outfile := fprintf (fprintf (fprintf (fprintf (outfile st)
       (''# hp6633 '' @ VERSION @ [NL]))
       (''# '' @ comment st @ [NL]))
       (''# Start: '' @ ct))
       (''# min'' @ [TAB] @ ''Volt'' @ [TAB] @ ''Ampere'' @ [NL])\<rparr>"

text \<open>
  How \<^verbatim>\<open>main\<close> ends: it returns an exit code, or it is still running when the inputs end (in
  the loop, or waiting for a key that never comes), or it has left defined behaviour.
\<close>

datatype outcome = Returned int | Running | Faulted

text \<open>
  Lines 514 to 550, after the label \<^verbatim>\<open>end\<close>: the instrument is closed, the final plot
  drawn, a key awaited.
\<close>

definition finish :: "env \<Rightarrow> state \<Rightarrow> outcome \<times> state" where
  "finish e st =
     (let (ok, b) = hp663X_close (close_err e) (do_reset st) (bus st); st1 = st\<lparr>bus := b\<rparr> in
      if ok = 0 then (Returned ERR_INST, st1\<lparr>gp := pclose_if (gp st1), kbd_raw := False\<rparr>)
      else if do_graph st1 then
        (let st2 = st1\<lparr>gp := gp_put (gp st1) (plot_cmd st1)\<rparr> in
         if do_keypress st2 \<and> \<not> final_key e then (Running, st2)
         else (Returned 0, st2\<lparr>gp := pclose_if (gp st2), kbd_raw := False\<rparr>))
      else (Returned 0, st1\<lparr>kbd_raw := False\<rparr>))"

text \<open>
  Lines 314 to 373, from the point where the output file has been opened, up to the call of
  \<^verbatim>\<open>hp663X_open\<close> and the assignment of its result to \<^verbatim>\<open>inst\<close>.
\<close>

definition connect :: "env \<Rightarrow> state \<Rightarrow> state" where
  "connect e st =
     (let st1 = plot_defaults (prepare (popen_ok e) st);
          (i, b) = hp663X_open (ibdev_ud e) (open_err e) (do_reset st1) (bus st1)
      in st1\<lparr>inst := i, bus := b\<rparr>)"

text \<open>
  Line 375: the setup command. Its voltage is 0 when a positive ramp step was given, else
  \<^verbatim>\<open>set_volt\<close>.
\<close>

definition configure :: "env \<Rightarrow> state \<Rightarrow> int \<times> state" where
  "configure e st =
     (let (ok, b) = hp663X_setup (setup_err e) (if 0 < ramp st then 0 else set_volt st)
                      (set_amp st) (set_limvolt st) (do_ocp st) (bus st)
      in (ok, st\<lparr>bus := b\<rparr>))"

text \<open>
  Lines 404 to 419: the header is written, the ramp starts from \<^verbatim>\<open>set_volt\<close> (upwards) or
  \<^verbatim>\<open>max_volt\<close> (downwards), the clock is read and the keyboard switched to raw mode.
\<close>

definition enter_loop :: "env \<Rightarrow> state \<Rightarrow> state" where
  "enter_loop e st =
     (write_header (start_ctime e) st)
       \<lparr>ramp_volt := (if 0 < ramp st then set_volt st else max_volt st),
        t0 := start_clock e, kbd_raw := True, key := 0\<rparr>"

text \<open>Lines 510 to 512: the footer is written and the data file closed.\<close>

definition leave_loop :: "env \<Rightarrow> state \<Rightarrow> state" where
  "leave_loop e st =
     st\<lparr>outfile := fclose (fprintf (outfile st) (''# Stop: '' @ stop_ctime e @ [NL]))\<rparr>"

text \<open>
  \<^verbatim>\<open>main\<close> from line 314 on, for option values \<open>st\<close> that passed the command line checks and an
  output file that could be opened.
\<close>

definition main :: "env \<Rightarrow> state \<Rightarrow> outcome \<times> state" where
  "main e st =
     (let st1 = connect e st in
      if inst st1 = 0 then (Returned ERR_INST, st1\<lparr>gp := pclose_if (gp st1)\<rparr>)
      else
        (let (ok, st2) = configure e st1 in
         if ok = 0 then (Returned ERR_INST, st2\<lparr>gp := pclose_if (gp st2)\<rparr>)
         else if delay st2 = 0 then finish e st2
         else
           (case acquire (enter_loop e st2) (cycles e) of
              Continue s \<Rightarrow> (Running, s)
            | Fault s \<Rightarrow> (Faulted, s)
            | Return c s \<Rightarrow> (Returned c, s)
            | Break s \<Rightarrow> finish e (leave_loop e s))))"

subsection \<open>Observations on a run\<close>

text \<open>
  A query is \<open>answered\<close> when both transfers go through and at least two bytes come back; it
  \<open>failed\<close> when one of the transfers reports an error. A pass is \<open>quiet\<close> when no transfer
  fails in it, and \<open>calm\<close> when in addition no quit key is delivered.
\<close>

definition answered :: "reply \<Rightarrow> bool" where
  "answered r = (case r of Reply bytes \<Rightarrow> 2 \<le> length bytes | _ \<Rightarrow> False)"

definition failed :: "reply \<Rightarrow> bool" where
  "failed r = (r = Wrt_err \<or> r = Rd_err)"

text \<open>The text that \<^verbatim>\<open>hp663X_read\<close> leaves in the buffer for an answered query.\<close>

definition reading :: "reply \<Rightarrow> string" where
  "reading r = (case r of Reply bytes \<Rightarrow> reply_text bytes | _ \<Rightarrow> [])"

definition quiet :: "cycle_in \<Rightarrow> bool" where
  "quiet i = (\<not> vset_err i \<and> answered (vout_in i) \<and> answered (iout_in i))"

definition calm :: "cycle_in \<Rightarrow> bool" where
  "calm i = (quiet i \<and> kbd i \<noteq> Some 113 \<and> kbd i \<noteq> Some ESC)"

text \<open>
  The data lines of the file: the texts written that are neither comment lines nor empty
  lines. The separator of a dual ramp is the text of two empty lines.
\<close>

definition is_data_line :: "string \<Rightarrow> bool" where
  "is_data_line s = (case s of [] \<Rightarrow> False | c # cs \<Rightarrow> c \<noteq> CHR ''#'' \<and> c \<noteq> NL)"

definition data_lines :: "cfile \<Rightarrow> string list" where
  "data_lines f = filter is_data_line (written f)"


text \<open>
  The commands sent by \<^verbatim>\<open>hp663X_set(inst, "VSET", ...)\<close>: they start with \<^verbatim>\<open>VSET\<close> and, unlike
  the setup command, hold no semicolon.
\<close>

definition vset_commands :: "string list \<Rightarrow> string list" where
  "vset_commands b = filter (\<lambda>c. take 5 c = ''VSET '' \<and> CHR '';'' \<notin> set c) b"

text \<open>
  The run reaches the acquisition loop: the instrument could be opened and set up, and the
  delay is not 0. \<open>loop_start\<close> is the state in which the loop is entered.
\<close>

definition enters_loop :: "env \<Rightarrow> state \<Rightarrow> bool" where
  "enters_loop e st =
     (inst (connect e st) \<noteq> 0 \<and> fst (configure e (connect e st)) \<noteq> 0 \<and> delay st \<noteq> 0)"

definition loop_start :: "env \<Rightarrow> state \<Rightarrow> state" where
  "loop_start e st = enter_loop e (snd (configure e (connect e st)))"

text \<open>The state in which a part of the program ends, however it ends.\<close>

fun state_of :: "'a step \<Rightarrow> 'a" where
  "state_of (Continue s) = s"
| "state_of (Break s) = s"
| "state_of (Return c s) = s"
| "state_of (Fault s) = s"

subsection \<open>Inputs of concrete runs\<close>

text \<open>
  The replies that the comment in \<^verbatim>\<open>hp663X_read\<close> quotes, each followed by carriage return and
  line feed, and a reply that is not a number.
\<close>

definition volt_reply :: string where
  "volt_reply = '' 12.009'' @ [CR, NL]"

definition amp_reply :: string where
  "amp_reply = ''-0.0005'' @ [CR, NL]"

definition bad_reply :: string where
  "bad_reply = ''ERROR'' @ [CR, NL]"

text \<open>A pass in which every transfer goes through and no key is pressed, at clock reading \<open>t\<close>.\<close>

definition pass_at :: "cdouble \<Rightarrow> cycle_in" where
  "pass_at t = \<lparr>vset_err = False, vout_in = Reply volt_reply, iout_in = Reply amp_reply,
     clock = t, kbd = None\<rparr>"

text \<open>
  Surroundings in which gnuplot starts, the instrument is opened and set up without error, the
  clock reads 1000 s when the loop is entered, and the passes of the loop are \<open>ps\<close>.
\<close>

definition bench :: "cycle_in list \<Rightarrow> env" where
  "bench ps = \<lparr>popen_ok = True, ibdev_ud = 16, open_err = False, setup_err = False,
     start_ctime = ''Thu Oct 30 12:00:00 2025'' @ [NL], start_clock = 1000, cycles = ps,
     stop_ctime = ''Thu Oct 30 13:00:00 2025'' @ [NL], close_err = False, final_key = True\<rparr>"


text \<open>
  The command line \<^verbatim>\<open>hp6633 -n -K -u 0 -U 5 -r 1000 out.dat\<close>: a single ramp from 0 V to 5 V
  in steps of 1000 mV, no graphics; and the same with \<^verbatim>\<open>-R\<close>, the dual ramp.
\<close>

definition ramp_0_5 :: state where
  "ramp_0_5 = startup\<lparr>do_graph := False, do_keypress := False, ramp := 1000, set_volt := 0,
     max_volt := 5, filename := ''out.dat''\<rparr>"

definition dual_0_5 :: state where
  "dual_0_5 = ramp_0_5\<lparr>dramp := True\<rparr>"

text \<open>
  The command line \<^verbatim>\<open>hp6633 -n -K -u 0 -U 2 -r -1000 out.dat\<close>: a single ramp downwards from
  2 V to 0 V in steps of 1000 mV.
\<close>

definition ramp_2_0 :: state where
  "ramp_2_0 = startup\<lparr>do_graph := False, do_keypress := False, ramp := - 1000, set_volt := 0,
     max_volt := 2, filename := ''out.dat''\<rparr>"

text \<open>Passes one minute apart: the first \<open>n\<close> passes after the loop is entered at 1000 s.\<close>

definition minute_passes :: "nat \<Rightarrow> cycle_in list" where
  "minute_passes n = map (\<lambda>k. pass_at (1000 + 60 * of_nat k)) [1..<Suc n]"

text \<open>
  The command line \<^verbatim>\<open>hp6633 -n -K -u 4 -U 5 -r -1000 out.dat\<close>: a single ramp downwards from
  5 V to 4 V in one step of 1000 mV.
\<close>

definition ramp_5_4 :: state where
  "ramp_5_4 = startup\<lparr>do_graph := False, do_keypress := False, ramp := - 1000, set_volt := 4,
     max_volt := 5, filename := ''out.dat''\<rparr>"

subsection \<open>The data file as text\<close>




text \<open>
  Modelled from the spec: the reading back of the data file. The program only writes the file
  (it is read by the plotting tool), so the reader follows the description of the file format:
  the text is cut into lines at the line feeds, a blank line is an empty line, a sample record
  is a line that is neither blank nor a comment and holds three decimal numbers separated by
  tabulators.
\<close>

fun split_at :: "char \<Rightarrow> string \<Rightarrow> string list" where
  "split_at c [] = [[]]"
| "split_at c (x # xs) =
     (if x = c then [] # split_at c xs
      else (case split_at c xs of l # ls \<Rightarrow> (x # l) # ls | [] \<Rightarrow> [[x]]))"







section \<open>Evaluation on concrete arguments\<close>

text \<open>Guarded unfolding rules, for evaluation on concrete arguments.\<close>

lemma ex_up_step: "pow2 (e + int p) \<le> a \<Longrightarrow> ex_up p a e = ex_up p a (e + 1)"
  by (subst ex_up.simps) simp

lemma ex_up_stop: "a < pow2 (e + int p) \<Longrightarrow> ex_up p a e = e"
  by (subst ex_up.simps) simp

lemma ex_down_step:
  "emin < e \<Longrightarrow> a < pow2 (e + int p - 1) \<Longrightarrow> ex_down p emin a e = ex_down p emin a (e - 1)"
  by (subst ex_down.simps) simp

lemma ex_down_stop_min: "e \<le> emin \<Longrightarrow> ex_down p emin a e = e"
  by (subst ex_down.simps) simp

lemma ex_down_stop: "pow2 (e + int p - 1) \<le> a \<Longrightarrow> ex_down p emin a e = e"
  by (subst ex_down.simps) simp

lemmas ex_eval = ex_up_step ex_up_stop ex_down_step ex_down_stop_min ex_down_stop

lemma dec_digits_one: "n < 10 \<Longrightarrow> dec_digits n = [digit_char n]"
  by (subst dec_digits.simps) simp

lemma dec_digits_more: "10 \<le> n \<Longrightarrow> dec_digits n = dec_digits (n div 10) @ [digit_char n]"
  by (subst dec_digits.simps) simp

lemma fixed_digits_4:
  "fixed_digits 4 m = [digit_char (m div 1000), digit_char (m div 100), digit_char (m div 10), digit_char m]"
proof -
  have e: "(4::nat) = Suc (Suc (Suc (Suc 0)))"
    by simp
  have d: "a div b div c = a div (b * c)" for a b c :: nat
    by (simp add: div_mult2_eq)
  show ?thesis
    unfolding e fixed_digits.simps d by simp
qed

lemma fixed_digits_6:
  "fixed_digits 6 m = [digit_char (m div 100000), digit_char (m div 10000), digit_char (m div 1000),
     digit_char (m div 100), digit_char (m div 10), digit_char m]"
proof -
  have e: "(6::nat) = Suc (Suc (Suc (Suc (Suc (Suc 0)))))"
    by simp
  have d: "a div b div c = a div (b * c)" for a b c :: nat
    by (simp add: div_mult2_eq)
  show ?thesis
    unfolding e fixed_digits.simps d by simp
qed

lemma rne_unfold:
  "rne x = (if x - of_int \<lfloor>x\<rfloor> < 1 / 2 then \<lfloor>x\<rfloor>
            else if 1 / 2 < x - of_int \<lfloor>x\<rfloor> then \<lfloor>x\<rfloor> + 1
            else if even \<lfloor>x\<rfloor> then \<lfloor>x\<rfloor> else \<lfloor>x\<rfloor> + 1)"
  by (simp add: rne_def Let_def)

lemma fl_unfold:
  "fl p emin x = (if x = 0 then 0
     else of_int (rne (x / pow2 (qexp p emin \<bar>x\<bar>))) * pow2 (qexp p emin \<bar>x\<bar>))"
  by (simp add: fl_def Let_def)

lemma fmt_f_unfold:
  "fmt_f d x = (if x < 0 then ''-'' else []) @ dec_digits (nat (rne (\<bar>x\<bar> * 10 ^ d)) div 10 ^ d) @
     ''.'' @ fixed_digits d (nat (rne (\<bar>x\<bar> * 10 ^ d)) mod 10 ^ d)"
  by (simp add: fmt_f_def Let_def)

lemmas fl_eval = f32_def f64_def fl_unfold qexp_def pow2_def ex_eval rne_unfold

lemmas fmt_eval = fmt_f_unfold dec_digits_one dec_digits_more fixed_digits_4 fixed_digits_6
  digit_char_def rne_unfold

lemmas scan_eval = sscanf_f_def scan_decimal_def scan_exp_def is_space_def is_digit_def
  digit_val_def digits_val_def pow10_def

section \<open>Properties of the floating point operations\<close>

lemma pow2_pos: "0 < pow2 e"
  by (simp add: pow2_def)

lemma pow2_powi: "pow2 e = 2 powi e"
  by (simp add: pow2_def power_int_def inverse_eq_divide power_divide)

lemma pow2_add: "pow2 (a + b) = pow2 a * pow2 b"
  by (simp add: pow2_powi power_int_add)

lemma pow2_less_iff: "pow2 a < pow2 b \<longleftrightarrow> a < b"
proof
  assume "pow2 a < pow2 b"
  show "a < b"
  proof (rule ccontr)
    assume "\<not> a < b"
    then have "b \<le> a" by simp
    then have "pow2 b \<le> pow2 a"
      unfolding pow2_powi by (intro power_int_increasing) auto
    with \<open>pow2 a < pow2 b\<close> show False by simp
  qed
next
  assume "a < b"
  then show "pow2 a < pow2 b"
    unfolding pow2_powi by (intro power_int_strict_increasing) auto
qed

lemma pow2_le_iff: "pow2 a \<le> pow2 b \<longleftrightarrow> a \<le> b"
  using pow2_less_iff [of b a] by (auto simp: not_less [symmetric])

lemma pow2_nat: "0 \<le> e \<Longrightarrow> pow2 e = of_int (2 ^ nat e)"
  by (simp add: pow2_def)

lemma rne_of_int: "rne (of_int k) = k"
  by (simp add: rne_def)

lemma rne_error: "\<bar>of_int (rne x) - x\<bar> \<le> 1 / 2"
proof -
  have "of_int \<lfloor>x\<rfloor> \<le> x" "x < of_int \<lfloor>x\<rfloor> + 1"
    by linarith+
  then show ?thesis
    by (auto simp: rne_def Let_def abs_le_iff)
qed

lemma ex_down_props:
  assumes "emin \<le> e" "a < pow2 (e + int p)"
  shows "emin \<le> ex_down p emin a e \<and> a < pow2 (ex_down p emin a e + int p) \<and>
         (ex_down p emin a e = emin \<or> pow2 (ex_down p emin a e + int p - 1) \<le> a)"
  using assms
proof (induction p emin a e rule: ex_down.induct)
  case (1 p emin a e)
  show ?case
  proof (cases "emin < e \<and> a < pow2 (e + int p - 1)")
    case True
    then have eq: "ex_down p emin a e = ex_down p emin a (e - 1)"
      by (simp add: ex_down_step)
    have "emin \<le> e - 1" "a < pow2 (e - 1 + int p)"
      using True by (simp_all add: algebra_simps)
    with 1(1) True show ?thesis
      unfolding eq by blast
  next
    case False
    then have eq: "ex_down p emin a e = e"
      by (meson ex_down_stop ex_down_stop_min not_less)
    from False 1(2,3) show ?thesis
      unfolding eq by auto
  qed
qed

lemma ex_up_props:
  assumes "pow2 (e + int p - 1) \<le> a"
  shows "e \<le> ex_up p a e \<and> a < pow2 (ex_up p a e + int p) \<and> pow2 (ex_up p a e + int p - 1) \<le> a"
  using assms
proof (induction p a e rule: ex_up.induct)
  case (1 p a e)
  show ?case
  proof (cases "pow2 (e + int p) \<le> a")
    case True
    then have eq: "ex_up p a e = ex_up p a (e + 1)"
      by (simp add: ex_up_step)
    have "pow2 (e + 1 + int p - 1) \<le> a"
      using True by (simp add: algebra_simps)
    with 1(1) True have "e + 1 \<le> ex_up p a (e + 1) \<and> a < pow2 (ex_up p a (e + 1) + int p) \<and>
        pow2 (ex_up p a (e + 1) + int p - 1) \<le> a"
      by blast
    then show ?thesis
      unfolding eq by auto
  next
    case False
    then have eq: "ex_up p a e = e"
      by (simp add: ex_up_stop)
    from False 1(2) show ?thesis
      unfolding eq by auto
  qed
qed

lemma qexp_props:
  assumes "emin \<le> 0"
  shows "emin \<le> qexp p emin a \<and> a < pow2 (qexp p emin a + int p) \<and>
         (qexp p emin a = emin \<or> pow2 (qexp p emin a + int p - 1) \<le> a)"
proof (cases "pow2 (int p) \<le> a")
  case True
  have "pow2 (0 + int p - 1) \<le> pow2 (int p)"
    by (simp add: pow2_le_iff)
  with True have "pow2 (0 + int p - 1) \<le> a"
    by linarith
  from ex_up_props [OF this] assms True show ?thesis
    by (auto simp: qexp_def)
next
  case False
  then have "a < pow2 (0 + int p)"
    by simp
  from ex_down_props [OF assms this] False show ?thesis
    by (auto simp: qexp_def)
qed

text \<open>A value on the grid is not changed by rounding.\<close>

lemma fl_exact:
  assumes m: "\<bar>m\<bar> < 2 ^ p" and e: "emin \<le> e" and emin: "emin \<le> 0"
  shows "fl p emin (of_int m * pow2 e) = of_int m * pow2 e"
proof (cases "m = 0")
  case True
  then show ?thesis by (simp add: fl_def)
next
  case False
  define x where "x = of_int m * pow2 e"
  define q where "q = qexp p emin \<bar>x\<bar>"
  have x0: "x \<noteq> 0"
    using False pow2_pos [of e] by (simp add: x_def)
  have ax: "\<bar>x\<bar> = of_int \<bar>m\<bar> * pow2 e"
    using pow2_pos [of e] by (simp add: x_def abs_mult)
  have "of_int \<bar>m\<bar> < (2 ^ p :: real)"
    using m by (metis of_int_less_iff of_int_numeral of_int_power)
  then have "\<bar>x\<bar> < 2 ^ p * pow2 e"
    unfolding ax using pow2_pos [of e] by simp
  also have "\<dots> = pow2 (int p + e)"
    unfolding pow2_add by (simp add: pow2_def)
  finally have up: "\<bar>x\<bar> < pow2 (int p + e)" .
  from qexp_props [OF emin, of p "\<bar>x\<bar>"]
  have "q = emin \<or> pow2 (q + int p - 1) \<le> \<bar>x\<bar>"
    by (simp add: q_def)
  then have qe: "q \<le> e"
  proof
    assume "q = emin"
    with e show ?thesis by simp
  next
    assume "pow2 (q + int p - 1) \<le> \<bar>x\<bar>"
    with up have "pow2 (q + int p - 1) < pow2 (int p + e)"
      by linarith
    then show ?thesis
      by (simp add: pow2_less_iff)
  qed
  have "pow2 e = pow2 (e - q) * pow2 q"
    by (simp add: pow2_add [symmetric])
  then have "x / pow2 q = of_int m * pow2 (e - q)"
    using pow2_pos [of q] by (simp add: x_def)
  also have "\<dots> = of_int (m * 2 ^ nat (e - q))"
    using qe by (simp add: pow2_def)
  finally have "rne (x / pow2 q) = m * 2 ^ nat (e - q)"
    by (simp only: rne_of_int)
  then have "of_int (rne (x / pow2 q)) * pow2 q = of_int m * (pow2 (e - q) * pow2 q)"
    using qe by (simp add: pow2_def)
  also have "\<dots> = x"
    by (simp add: pow2_add [symmetric] x_def)
  finally show ?thesis
    using x0 by (simp add: fl_def Let_def q_def [symmetric] x_def [symmetric])
qed

lemma fl_int:
  assumes "\<bar>m\<bar> < 2 ^ p" "emin \<le> 0"
  shows "fl p emin (of_int m) = of_int m"
  using fl_exact [OF assms(1) _ assms(2), of 0] assms(2) by (simp add: pow2_def)

text \<open>The rounding error is at most half the grid spacing.\<close>

lemma fl_error:
  assumes x: "\<bar>x\<bar> < pow2 k" and k: "emin \<le> k - int p" and emin: "emin \<le> 0"
  shows "\<bar>fl p emin x - x\<bar> \<le> pow2 (k - int p) / 2"
proof (cases "x = 0")
  case True
  then show ?thesis
    using pow2_pos [of "k - int p"] by (simp add: fl_def)
next
  case False
  define q where "q = qexp p emin \<bar>x\<bar>"
  from qexp_props [OF emin, of p "\<bar>x\<bar>"]
  have "q = emin \<or> pow2 (q + int p - 1) \<le> \<bar>x\<bar>"
    by (simp add: q_def)
  then have qk: "q \<le> k - int p"
  proof
    assume "q = emin"
    with k show ?thesis by simp
  next
    assume "pow2 (q + int p - 1) \<le> \<bar>x\<bar>"
    with x have "pow2 (q + int p - 1) < pow2 k"
      by linarith
    then show ?thesis
      by (simp add: pow2_less_iff)
  qed
  have "\<bar>of_int (rne (x / pow2 q)) - x / pow2 q\<bar> \<le> 1 / 2"
    by (rule rne_error)
  then have "\<bar>of_int (rne (x / pow2 q)) - x / pow2 q\<bar> * pow2 q \<le> 1 / 2 * pow2 q"
    using pow2_pos [of q] by (intro mult_right_mono) auto
  moreover have "\<bar>of_int (rne (x / pow2 q)) - x / pow2 q\<bar> * pow2 q =
      \<bar>of_int (rne (x / pow2 q)) * pow2 q - x\<bar>"
  proof -
    have "(of_int (rne (x / pow2 q)) - x / pow2 q) * pow2 q = of_int (rne (x / pow2 q)) * pow2 q - x"
      using pow2_pos [of q] by (simp add: left_diff_distrib)
    then have "\<bar>of_int (rne (x / pow2 q)) * pow2 q - x\<bar> =
        \<bar>of_int (rne (x / pow2 q)) - x / pow2 q\<bar> * \<bar>pow2 q\<bar>"
      by (simp only: abs_mult [symmetric])
    then show ?thesis
      using pow2_pos [of q] by simp
  qed
  ultimately have "\<bar>fl p emin x - x\<bar> \<le> pow2 q / 2"
    using False by (simp add: fl_def Let_def q_def [symmetric])
  also have "pow2 q \<le> pow2 (k - int p)"
    using qk by (simp add: pow2_le_iff)
  finally show ?thesis by simp
qed

lemma c001_val: "c001 = 1152921504606847 / 1152921504606846976"
  by (simp add: c001_def fl_eval)

lemma f64_int: "\<bar>m\<bar> < 2 ^ 53 \<Longrightarrow> f64 (of_int m) = of_int m"
  unfolding f64_def by (rule fl_int) simp_all

lemma f32_int: "\<bar>m\<bar> < 2 ^ 24 \<Longrightarrow> f32 (of_int m) = of_int m"
  unfolding f32_def by (rule fl_int) simp_all

lemma f64_numeral: "(numeral w :: int) < 2 ^ 53 \<Longrightarrow> f64 (numeral w) = numeral w"
  using f64_int [of "numeral w"] by simp

lemma f32_numeral: "(numeral w :: int) < 2 ^ 24 \<Longrightarrow> f32 (numeral w) = numeral w"
  using f32_int [of "numeral w"] by simp

lemma f64_small: "f64 0 = 0" "f64 1 = 1"
  using f64_int [of 0] f64_int [of 1] by simp_all

lemma step_up_1000: "f64 (1000 * c001) = 1"
  unfolding c001_val by (simp add: fl_eval)

lemma step_down_1000: "f64 (- 1000 * c001) = - 1"
  unfolding c001_val by (simp add: fl_eval)

lemma add_ramp_up_1000:
  assumes "\<bar>n\<bar> < 1000"
  shows "add_ramp (of_int n) 1000 = of_int (n + 1)"
proof -
  have "f64 (of_int n + 1) = of_int (n + 1)"
    using f64_int [of "n + 1"] assms by simp
  moreover have "f32 (of_int (n + 1)) = of_int (n + 1)"
    using assms by (intro f32_int) simp
  ultimately show ?thesis
    using step_up_1000 by (simp add: add_ramp_def)
qed

lemma add_ramp_down_1000:
  assumes "\<bar>n\<bar> < 1000"
  shows "add_ramp (of_int n) (- 1000) = of_int (n - 1)"
proof -
  have "f64 (of_int n - 1) = of_int (n - 1)"
    using f64_int [of "n - 1"] assms by simp
  moreover have "f32 (of_int (n - 1)) = of_int (n - 1)"
    using assms by (intro f32_int) simp
  ultimately show ?thesis
    using step_down_1000 by (simp add: add_ramp_def)
qed

lemma c001_close: "\<bar>c001 - 1 / 1000\<bar> \<le> 1 / 10 ^ 19"
  by (simp add: c001_val)

text \<open>
  One step of the ramp moves the setpoint by the step in volts, up to a rounding error far
  below the smallest step of 1 mV.
\<close>

lemma add_ramp_near:
  assumes v: "\<bar>v\<bar> \<le> 52" and r: "\<bar>r\<bar> \<le> 1000"
  shows "\<bar>add_ramp v r - (v + of_int r / 1000)\<bar> \<le> 1 / 100000"
proof -
  define p where "p = of_int r * c001"
  define d where "d = f64 p"
  define s where "s = f64 (v + d)"
  have ar: "\<bar>of_int r :: real\<bar> \<le> 1000"
    using r by (metis of_int_abs of_int_le_iff of_int_numeral)
  have "p - of_int r / 1000 = of_int r * (c001 - 1 / 1000)"
    by (simp add: p_def algebra_simps)
  then have "\<bar>p - of_int r / 1000\<bar> = \<bar>of_int r\<bar> * \<bar>c001 - 1 / 1000\<bar>"
    by (simp add: abs_mult)
  also have "\<dots> \<le> 1000 * (1 / 10 ^ 19)"
    using ar c001_close by (intro mult_mono) auto
  finally have p1: "\<bar>p - of_int r / 1000\<bar> \<le> 1 / 10000000000000000"
    by simp
  have r1: "\<bar>of_int r / 1000 :: real\<bar> \<le> 1"
    using ar by simp
  have "\<bar>p\<bar> < 2"
    using p1 r1 by linarith
  then have "\<bar>p\<bar> < pow2 1"
    by (simp add: pow2_def)
  then have "\<bar>fl 53 (- 1074) p - p\<bar> \<le> pow2 (1 - int 53) / 2"
    by (rule fl_error) simp_all
  then have d1: "\<bar>d - p\<bar> \<le> 1 / 9007199254740992"
    by (simp add: d_def f64_def pow2_def)
  have "\<bar>v + d\<bar> < 64"
    using v d1 p1 r1 by linarith
  then have "\<bar>v + d\<bar> < pow2 6"
    by (simp add: pow2_def)
  then have "\<bar>fl 53 (- 1074) (v + d) - (v + d)\<bar> \<le> pow2 (6 - int 53) / 2"
    by (rule fl_error) simp_all
  then have s1: "\<bar>s - (v + d)\<bar> \<le> 1 / 281474976710656"
    by (simp add: s_def f64_def pow2_def)
  have "\<bar>s\<bar> < 64"
    using s1 v d1 p1 r1 by linarith
  then have "\<bar>s\<bar> < pow2 6"
    by (simp add: pow2_def)
  then have "\<bar>fl 24 (- 149) s - s\<bar> \<le> pow2 (6 - int 24) / 2"
    by (rule fl_error) simp_all
  then have t1: "\<bar>f32 s - s\<bar> \<le> 1 / 524288"
    by (simp add: f32_def pow2_def)
  have "add_ramp v r = f32 s"
    by (simp add: add_ramp_def s_def d_def p_def)
  then show ?thesis
    using t1 s1 d1 p1 by linarith
qed

section \<open>The parts of one pass\<close>

lemma step_and_send_eq:
  "step_and_send w st = (if w then 0 else 1,
     st\<lparr>ramp_volt := add_ramp (ramp_volt st) (ramp st),
        bus := bus st @ [''VSET '' @ fmt_f 6 (add_ramp (ramp_volt st) (ramp st)) @ [NL]]\<rparr>)"
  by (simp add: step_and_send_def hp663X_set_def)

lemma ramp_section_static: "ramp st = 0 \<Longrightarrow> ramp_section w st = Continue st"
  by (simp add: ramp_section_def)

lemma ramp_section_end:
  "ramp st \<noteq> 0 \<Longrightarrow> limit_reached st \<Longrightarrow> \<not> dramp st \<Longrightarrow> ramp_section w st = Break (st\<lparr>key := ESC\<rparr>)"
  by (simp add: ramp_section_def)

lemma ramp_section_step:
  "ramp st \<noteq> 0 \<Longrightarrow> \<not> limit_reached st \<Longrightarrow>
   ramp_section False st = Continue (snd (step_and_send False st))"
  by (simp add: ramp_section_def step_and_send_eq)

lemma ramp_section_turn:
  "ramp st \<noteq> 0 \<Longrightarrow> limit_reached st \<Longrightarrow> dramp st \<Longrightarrow>
   ramp_section False st = Continue (snd (step_and_send False (reverse st)))"
  by (simp add: ramp_section_def step_and_send_eq)

lemma ramp_section_fail:
  "ramp st \<noteq> 0 \<Longrightarrow> \<not> (limit_reached st \<and> \<not> dramp st) \<Longrightarrow>
   ramp_section True st =
     quit_loop (snd (step_and_send True (if limit_reached st then reverse st else st)))"
  by (auto simp: ramp_section_def step_and_send_eq)

lemma hp663X_read_answered:
  "answered r \<Longrightarrow> hp663X_read r what b = (Read_ok (reading r), b @ [what @ [NL]])"
  by (cases r) (auto simp: answered_def reading_def hp663X_read_def)

lemma hp663X_read_failed:
  "failed r \<Longrightarrow> hp663X_read r what b = (Read_err, b @ [what @ [NL]])"
  by (cases r) (auto simp: failed_def hp663X_read_def)

lemma sample_section_answered:
  assumes "answered (vout_in i)" "answered (iout_in i)"
  shows "sample_section i st =
     Continue (st\<lparr>loop := (loop st + 1) mod 2 ^ 64,
       volt := scan_into (reading (vout_in i)) (volt st),
       amp := scan_into (reading (iout_in i)) (amp st),
       outfile := fprintf (outfile st)
         (sample_line (f64 (f64 (clock i - t0 st) / 60))
            (scan_into (reading (vout_in i)) (volt st))
            (scan_into (reading (iout_in i)) (amp st))),
       bus := bus st @ [''VOUT?'' @ [NL], ''IOUT?'' @ [NL]]\<rparr>)"
  using assms by (simp add: sample_section_def hp663X_read_answered)

lemma sample_section_vout_failed:
  assumes "failed (vout_in i)"
  shows "sample_section i st = quit_loop (st\<lparr>bus := bus st @ [''VOUT?'' @ [NL]]\<rparr>)"
  using assms by (simp add: sample_section_def hp663X_read_failed)

lemma sample_section_iout_failed:
  assumes "answered (vout_in i)" "failed (iout_in i)"
  shows "sample_section i st =
     quit_loop (st\<lparr>volt := scan_into (reading (vout_in i)) (volt st),
       bus := bus st @ [''VOUT?'' @ [NL], ''IOUT?'' @ [NL]]\<rparr>)"
  using assms by (simp add: sample_section_def hp663X_read_failed hp663X_read_answered)

lemma flush_divisor_valid: "0 < d \<Longrightarrow> d < 2 ^ 64 \<Longrightarrow> flush_divisor d = nat d"
  by (simp add: flush_divisor_def)

lemma refresh_section_eq:
  assumes "0 < do_flush st" "do_flush st < 2 ^ 64"
  shows "refresh_section st =
     Continue (if loop st mod nat (do_flush st) = 0
       then (if do_graph st
             then st\<lparr>outfile := fflush (outfile st), gp := gp_put (gp st) (plot_cmd st)\<rparr>
             else st\<lparr>outfile := fflush (outfile st)\<rparr>)
       else st)"
  using assms by (simp add: refresh_section_def flush_divisor_valid plot_cmd_def)

lemma quit_loop_eq:
  "quit_loop st = Return ERR_INST
     (st\<lparr>outfile := fclose (outfile st), gp := pclose_if (gp st), kbd_raw := False\<rparr>)"
  by (simp add: quit_loop_def)

lemma and_then_Continue:
  "and_then x f = Continue s' \<longleftrightarrow> (\<exists>s. x = Continue s \<and> f s = Continue s')"
  by (cases x) auto

lemma and_then_Break:
  "and_then x f = Break s' \<longleftrightarrow> x = Break s' \<or> (\<exists>s. x = Continue s \<and> f s = Break s')"
  by (cases x) auto

lemma and_then_Return:
  "and_then x f = Return c s' \<longleftrightarrow> x = Return c s' \<or> (\<exists>s. x = Continue s \<and> f s = Return c s')"
  by (cases x) auto

lemma and_then_Fault:
  "and_then x f = Fault s' \<longleftrightarrow> x = Fault s' \<or> (\<exists>s. x = Continue s \<and> f s = Fault s')"
  by (cases x) auto

text \<open>How the ramp part of a pass can end.\<close>

lemma ramp_section_cases:
  obtains
    (static) "ramp st = 0" "ramp_section w st = Continue st"
  | (ended) "ramp st \<noteq> 0" "limit_reached st" "\<not> dramp st" "ramp_section w st = Break (st\<lparr>key := ESC\<rparr>)"
  | (step) "ramp st \<noteq> 0" "\<not> limit_reached st" "\<not> w"
      "ramp_section w st = Continue (snd (step_and_send False st))"
  | (turn) "ramp st \<noteq> 0" "limit_reached st" "dramp st" "\<not> w"
      "ramp_section w st = Continue (snd (step_and_send False (reverse st)))"
  | (fail) "ramp st \<noteq> 0" "\<not> (limit_reached st \<and> \<not> dramp st)" "w"
      "ramp_section w st =
         quit_loop (snd (step_and_send True (if limit_reached st then reverse st else st)))"
proof (cases "ramp st = 0")
  case True
  then show ?thesis
    using static by (simp add: ramp_section_static)
next
  case nz: False
  show ?thesis
  proof (cases "limit_reached st \<and> \<not> dramp st")
    case True
    then show ?thesis
      using nz ended by (simp add: ramp_section_end)
  next
    case go: False
    show ?thesis
    proof (cases w)
      case True
      then show ?thesis
        using nz go fail ramp_section_fail [of st] by simp
    next
      case False
      show ?thesis
      proof (cases "limit_reached st")
        case True
        with go have "dramp st" by simp
        then show ?thesis
          using nz True False turn ramp_section_turn [of st] by simp
      next
        case nl: False
        then show ?thesis
          using nz False step ramp_section_step [of st] by simp
      qed
    qed
  qed
qed

text \<open>How the sampling part of a pass can end.\<close>

lemma sample_section_cases:
  obtains
    (sampled) "answered (vout_in i)" "answered (iout_in i)"
      "sample_section i st =
         Continue (st\<lparr>loop := (loop st + 1) mod 2 ^ 64,
           volt := scan_into (reading (vout_in i)) (volt st),
           amp := scan_into (reading (iout_in i)) (amp st),
           outfile := fprintf (outfile st)
             (sample_line (f64 (f64 (clock i - t0 st) / 60))
                (scan_into (reading (vout_in i)) (volt st))
                (scan_into (reading (iout_in i)) (amp st))),
           bus := bus st @ [''VOUT?'' @ [NL], ''IOUT?'' @ [NL]]\<rparr>)"
  | (vout_failed) "failed (vout_in i)"
      "sample_section i st = quit_loop (st\<lparr>bus := bus st @ [''VOUT?'' @ [NL]]\<rparr>)"
  | (iout_failed) "answered (vout_in i)" "failed (iout_in i)"
      "sample_section i st =
         quit_loop (st\<lparr>volt := scan_into (reading (vout_in i)) (volt st),
           bus := bus st @ [''VOUT?'' @ [NL], ''IOUT?'' @ [NL]]\<rparr>)"
  | (vout_short) "\<not> answered (vout_in i)" "\<not> failed (vout_in i)"
      "sample_section i st = Fault (st\<lparr>bus := bus st @ [''VOUT?'' @ [NL]]\<rparr>)"
  | (iout_short) "answered (vout_in i)" "\<not> answered (iout_in i)" "\<not> failed (iout_in i)"
      "sample_section i st =
         Fault (st\<lparr>volt := scan_into (reading (vout_in i)) (volt st),
           bus := bus st @ [''VOUT?'' @ [NL], ''IOUT?'' @ [NL]]\<rparr>)"
proof -
  have short: "hp663X_read r what b = (Read_fault, b @ [what @ [NL]])"
    if "\<not> answered r" "\<not> failed r" for r what b
    using that by (cases r) (auto simp: answered_def failed_def hp663X_read_def)
  have excl: "\<not> failed r" if "answered r" for r
    using that by (cases r) (auto simp: answered_def failed_def)
  show ?thesis
  proof (cases "answered (vout_in i)")
    case av: True
    show ?thesis
    proof (cases "answered (iout_in i)")
      case True
      then show ?thesis
        using av sampled sample_section_answered by simp
    next
      case ai: False
      show ?thesis
      proof (cases "failed (iout_in i)")
        case True
        then show ?thesis
          using av iout_failed sample_section_iout_failed by simp
      next
        case False
        then show ?thesis
          using av ai iout_short
          by (simp add: sample_section_def hp663X_read_answered short)
      qed
    qed
  next
    case nv: False
    show ?thesis
    proof (cases "failed (vout_in i)")
      case True
      then show ?thesis
        using vout_failed sample_section_vout_failed by simp
    next
      case False
      then show ?thesis
        using nv vout_short by (simp add: sample_section_def short)
    qed
  qed
qed

lemma plot_cmd_outfile: "plot_cmd (st\<lparr>outfile := f\<rparr>) = plot_cmd st"
  unfolding plot_cmd_def by simp

lemma refresh_section_cases:
  obtains
    (fault) "flush_divisor (do_flush st) = 0" "refresh_section st = Fault st"
  | (flushed) "flush_divisor (do_flush st) \<noteq> 0" "loop st mod flush_divisor (do_flush st) = 0"
      "refresh_section st =
         Continue (st\<lparr>outfile := fflush (outfile st),
           gp := (if do_graph st then gp_put (gp st) (plot_cmd st) else gp st)\<rparr>)"
  | (idle) "flush_divisor (do_flush st) \<noteq> 0" "loop st mod flush_divisor (do_flush st) \<noteq> 0"
      "refresh_section st = Continue st"
proof (cases "flush_divisor (do_flush st) = 0")
  case True
  then show ?thesis
    using fault by (simp add: refresh_section_def)
next
  case nz: False
  show ?thesis
  proof (cases "loop st mod flush_divisor (do_flush st) = 0")
    case True
    have "refresh_section st =
         Continue (st\<lparr>outfile := fflush (outfile st),
           gp := (if do_graph st then gp_put (gp st) (plot_cmd st) else gp st)\<rparr>)"
      using nz True by (simp add: refresh_section_def plot_cmd_outfile)
    then show ?thesis
      using nz True flushed by simp
  next
    case False
    then show ?thesis
      using nz idle by (simp add: refresh_section_def)
  qed
qed

subsection \<open>Lines of the data file\<close>

lemma digit_char_in: "digit_char n \<in> set ''0123456789''"
  unfolding digit_char_def by (rule nth_mem) simp

lemma dec_digits_hd: "dec_digits n \<noteq> [] \<and> hd (dec_digits n) \<in> set ''0123456789''"
proof (induction n rule: dec_digits.induct)
  case (1 n)
  show ?case
  proof (cases "n < 10")
    case True
    then show ?thesis
      using digit_char_in [of n] by (simp add: dec_digits_one)
  next
    case False
    with 1 show ?thesis
      by (simp add: dec_digits_more)
  qed
qed

lemma fmt_f_hd: "fmt_f d x \<noteq> [] \<and> hd (fmt_f d x) \<in> set ''-0123456789''"
  using dec_digits_hd [of "nat (rne (\<bar>x\<bar> * 10 ^ d)) div 10 ^ d"]
  by (auto simp: fmt_f_unfold hd_append)

lemma is_data_line_sample: "is_data_line (sample_line t v a)"
proof -
  obtain c cs where "fmt_f 4 t = c # cs" "c \<in> set ''-0123456789''"
    using fmt_f_hd [of 4 t] by (cases "fmt_f 4 t") auto
  then show ?thesis
    by (auto simp: is_data_line_def sample_line_def)
qed

lemma not_data_line [simp]:
  "\<not> is_data_line [NL, NL]" "\<not> is_data_line (CHR ''#'' # s)"
  by (simp_all add: is_data_line_def)

lemma sample_line_not_separator: "sample_line t v a \<noteq> [NL, NL]"
  using is_data_line_sample [of t v a] by (auto simp: is_data_line_def)

subsection \<open>One pass\<close>

lemma ramp_section_Continue:
  assumes "ramp_section w st = Continue s1"
  obtains
    (idle) "ramp st = 0" "s1 = st"
  | (stepped) "ramp st \<noteq> 0" "\<not> limit_reached st"
      "s1 = st\<lparr>ramp_volt := add_ramp (ramp_volt st) (ramp st),
         bus := bus st @ [''VSET '' @ fmt_f 6 (add_ramp (ramp_volt st) (ramp st)) @ [NL]]\<rparr>"
  | (turned) "ramp st \<noteq> 0" "limit_reached st" "dramp st"
      "s1 = st\<lparr>dramp := False, dramp_avail := True, ramp := - ramp st,
         ramp_volt := add_ramp (ramp_volt st) (- ramp st),
         outfile := fprintf (outfile st) [NL, NL],
         bus := bus st @ [''VSET '' @ fmt_f 6 (add_ramp (ramp_volt st) (- ramp st)) @ [NL]]\<rparr>"
proof (cases rule: ramp_section_cases [of st w])
  case static
  then have "s1 = st"
    using assms by simp
  with static(1) show ?thesis
    by (rule idle)
next
  case ended
  then show ?thesis
    using assms by simp
next
  case step
  then have "s1 = snd (step_and_send False st)"
    using assms by simp
  then have "s1 = st\<lparr>ramp_volt := add_ramp (ramp_volt st) (ramp st),
         bus := bus st @ [''VSET '' @ fmt_f 6 (add_ramp (ramp_volt st) (ramp st)) @ [NL]]\<rparr>"
    by (simp add: step_and_send_eq)
  with step(1,2) show ?thesis
    by (rule stepped)
next
  case turn
  then have "s1 = snd (step_and_send False (reverse st))"
    using assms by simp
  then have "s1 = st\<lparr>dramp := False, dramp_avail := True, ramp := - ramp st,
         ramp_volt := add_ramp (ramp_volt st) (- ramp st),
         outfile := fprintf (outfile st) [NL, NL],
         bus := bus st @ [''VSET '' @ fmt_f 6 (add_ramp (ramp_volt st) (- ramp st)) @ [NL]]\<rparr>"
    by (simp add: step_and_send_eq reverse_def)
  with turn(1,2,3) show ?thesis
    by (rule turned)
next
  case fail
  then show ?thesis
    using assms by (simp add: quit_loop_eq)
qed

lemma sample_section_Continue:
  assumes "sample_section i s1 = Continue s2"
  shows "answered (vout_in i) \<and> answered (iout_in i) \<and>
    s2 = s1\<lparr>loop := (loop s1 + 1) mod 2 ^ 64,
           volt := scan_into (reading (vout_in i)) (volt s1),
           amp := scan_into (reading (iout_in i)) (amp s1),
           outfile := fprintf (outfile s1)
             (sample_line (f64 (f64 (clock i - t0 s1) / 60))
                (scan_into (reading (vout_in i)) (volt s1))
                (scan_into (reading (iout_in i)) (amp s1))),
           bus := bus s1 @ [''VOUT?'' @ [NL], ''IOUT?'' @ [NL]]\<rparr>"
  by (rule sample_section_cases [of i s1]) (use assms in \<open>simp_all add: quit_loop_eq\<close>)

lemma refresh_section_Continue:
  assumes "refresh_section s2 = Continue s3"
  shows "flush_divisor (do_flush s2) \<noteq> 0 \<and>
    s3 = (if loop s2 mod flush_divisor (do_flush s2) = 0
          then s2\<lparr>outfile := fflush (outfile s2),
                 gp := (if do_graph s2 then gp_put (gp s2) (plot_cmd s2) else gp s2)\<rparr>
          else s2)"
  by (rule refresh_section_cases [of s2]) (use assms in simp_all)

text \<open>A pass that runs to its end: what it leaves behind.\<close>

lemma cycle_Continue:
  assumes "cycle st i = Continue s'"
  obtains s1 l where
    "ramp_section (vset_err i) st = Continue s1"
    "answered (vout_in i)" "answered (iout_in i)"
    "flush_divisor (do_flush s1) \<noteq> 0"
    "written (outfile s') = written (outfile s1) @ [l]" "is_data_line l" "l \<noteq> [NL, NL]"
    "l = sample_line (f64 (f64 (clock i - t0 s1) / 60)) (volt s') (amp s')"
    "volt s' = scan_into (reading (vout_in i)) (volt s1)"
    "amp s' = scan_into (reading (iout_in i)) (amp s1)"
    "is_open (outfile s') = is_open (outfile s1)"
    "loop s' = (loop s1 + 1) mod 2 ^ 64"
    "synced (outfile s') =
       (if loop s' mod flush_divisor (do_flush s1) = 0 then written (outfile s')
        else synced (outfile s1))"
    "key s' = (case kbd i of None \<Rightarrow> key s1 | Some k \<Rightarrow> k)"
    "ramp s' = ramp s1" "dramp s' = dramp s1" "dramp_avail s' = dramp_avail s1"
    "ramp_volt s' = ramp_volt s1" "set_volt s' = set_volt s1" "max_volt s' = max_volt s1"
    "do_flush s' = do_flush s1" "do_reset s' = do_reset s1"
    "bus s' = bus s1 @ [''VOUT?'' @ [NL], ''IOUT?'' @ [NL]]"
    "kbd_raw s' = kbd_raw s1" "t0 s' = t0 s1"
proof -
  from assms obtain s1 s2 s3 where
    r: "ramp_section (vset_err i) st = Continue s1" and
    s: "sample_section i s1 = Continue s2" and
    f: "refresh_section s2 = Continue s3" and
    p: "s' = poll_section (kbd i) s3"
    by (auto simp: cycle_def and_then_Continue)
  define l where "l = sample_line (f64 (f64 (clock i - t0 s1) / 60))
    (scan_into (reading (vout_in i)) (volt s1)) (scan_into (reading (iout_in i)) (amp s1))"
  from sample_section_Continue [OF s]
  have av: "answered (vout_in i)" and ai: "answered (iout_in i)" and
    s2: "s2 = s1\<lparr>loop := (loop s1 + 1) mod 2 ^ 64,
           volt := scan_into (reading (vout_in i)) (volt s1),
           amp := scan_into (reading (iout_in i)) (amp s1),
           outfile := fprintf (outfile s1) l,
           bus := bus s1 @ [''VOUT?'' @ [NL], ''IOUT?'' @ [NL]]\<rparr>"
    by (simp_all add: l_def)
  have s2_file: "written (outfile s2) = written (outfile s1) @ [l]"
      "is_open (outfile s2) = is_open (outfile s1)" "synced (outfile s2) = synced (outfile s1)"
    by (simp_all add: s2 fprintf_def)
  have s2_vars: "loop s2 = (loop s1 + 1) mod 2 ^ 64" "key s2 = key s1" "ramp s2 = ramp s1"
      "dramp s2 = dramp s1" "dramp_avail s2 = dramp_avail s1" "ramp_volt s2 = ramp_volt s1"
      "volt s2 = scan_into (reading (vout_in i)) (volt s1)"
      "amp s2 = scan_into (reading (iout_in i)) (amp s1)"
      "bus s2 = bus s1 @ [''VOUT?'' @ [NL], ''IOUT?'' @ [NL]]"
      "kbd_raw s2 = kbd_raw s1" "t0 s2 = t0 s1" "do_flush s2 = do_flush s1"
      "set_volt s2 = set_volt s1" "max_volt s2 = max_volt s1" "do_reset s2 = do_reset s1"
    by (simp_all add: s2)
  from refresh_section_Continue [OF f]
  have fd: "flush_divisor (do_flush s2) \<noteq> 0" and
    s3: "s3 = (if loop s2 mod flush_divisor (do_flush s2) = 0
          then s2\<lparr>outfile := fflush (outfile s2),
                 gp := (if do_graph s2 then gp_put (gp s2) (plot_cmd s2) else gp s2)\<rparr>
          else s2)"
    by simp_all
  have s3_file: "written (outfile s3) = written (outfile s2)"
      "is_open (outfile s3) = is_open (outfile s2)"
      "synced (outfile s3) = (if loop s2 mod flush_divisor (do_flush s2) = 0
         then written (outfile s2) else synced (outfile s2))"
    by (simp_all add: s3 fflush_def)
  have s3_vars: "loop s3 = loop s2" "key s3 = key s2" "ramp s3 = ramp s2"
      "dramp s3 = dramp s2" "dramp_avail s3 = dramp_avail s2" "ramp_volt s3 = ramp_volt s2"
      "volt s3 = volt s2" "amp s3 = amp s2" "bus s3 = bus s2" "kbd_raw s3 = kbd_raw s2"
      "t0 s3 = t0 s2" "do_flush s3 = do_flush s2"
      "set_volt s3 = set_volt s2" "max_volt s3 = max_volt s2" "do_reset s3 = do_reset s2"
    by (simp_all add: s3)
  have p_vars: "loop s' = loop s3" "key s' = (case kbd i of None \<Rightarrow> key s3 | Some k \<Rightarrow> k)"
      "ramp s' = ramp s3" "dramp s' = dramp s3" "dramp_avail s' = dramp_avail s3"
      "ramp_volt s' = ramp_volt s3" "volt s' = volt s3" "amp s' = amp s3" "bus s' = bus s3"
      "kbd_raw s' = kbd_raw s3" "t0 s' = t0 s3" "outfile s' = outfile s3"
      "do_flush s' = do_flush s3"
      "set_volt s' = set_volt s3" "max_volt s' = max_volt s3" "do_reset s' = do_reset s3"
    by (simp_all add: p poll_section_def split: option.splits)
  show ?thesis
  proof (rule that [OF r av ai, of l])
    show "flush_divisor (do_flush s1) \<noteq> 0"
      using fd s2_vars by simp
    show "written (outfile s') = written (outfile s1) @ [l]"
      by (simp add: p_vars s3_file s2_file)
    show "is_data_line l" "l \<noteq> [NL, NL]"
      by (simp_all add: l_def is_data_line_sample sample_line_not_separator)
    show "l = sample_line (f64 (f64 (clock i - t0 s1) / 60)) (volt s') (amp s')"
      by (simp add: l_def p_vars s3_vars s2_vars)
    show "is_open (outfile s') = is_open (outfile s1)"
      by (simp add: p_vars s3_file s2_file)
    show "synced (outfile s') =
       (if loop s' mod flush_divisor (do_flush s1) = 0 then written (outfile s')
        else synced (outfile s1))"
      by (simp add: p_vars s3_file s3_vars s2_file s2_vars)
  qed (simp_all add: p_vars s3_vars s2_vars split: option.splits)
qed

lemma vset_not_reset: "''VSET '' @ x \<noteq> reset_cmd"
  by simp

lemma ramp_section_Continue_bus:
  assumes "ramp_section w st = Continue s1"
  shows "\<exists>pre. bus s1 = bus st @ pre \<and> reset_cmd \<notin> set pre"
  using assms by (cases rule: ramp_section_Continue) auto

lemma ramp_section_Continue_frame:
  assumes "ramp_section w st = Continue s1"
  shows "gp s1 = gp st" "kbd_raw s1 = kbd_raw st" "is_open (outfile s1) = is_open (outfile st)"
    "synced (outfile s1) = synced (outfile st)" "data_lines (outfile s1) = data_lines (outfile st)"
    "do_flush s1 = do_flush st" "do_reset s1 = do_reset st" "do_graph s1 = do_graph st"
    "set_volt s1 = set_volt st" "max_volt s1 = max_volt st" "loop s1 = loop st"
    "key s1 = key st" "t0 s1 = t0 st" "volt s1 = volt st" "amp s1 = amp st"
  using assms by (cases rule: ramp_section_Continue; simp add: fprintf_def data_lines_def)+

lemma refresh_section_not_Return: "refresh_section s \<noteq> Return c s'"
  by (cases s rule: refresh_section_cases) simp_all

lemma refresh_section_not_Break: "refresh_section s \<noteq> Break s'"
  by (cases s rule: refresh_section_cases) simp_all

lemma sample_section_not_Break: "sample_section i s \<noteq> Break s'"
  by (cases i s rule: sample_section_cases) (simp_all add: quit_loop_eq)

lemma ramp_section_not_Fault: "ramp_section w s \<noteq> Fault s'"
  by (cases rule: ramp_section_cases [of s w]) (simp_all add: quit_loop_eq)

lemma ramp_section_Return:
  assumes "ramp_section w st = Return c s'"
  shows "c = ERR_INST \<and> w \<and> \<not> is_open (outfile s') \<and> synced (outfile s') = written (outfile s') \<and>
    \<not> kbd_raw s' \<and> gp s' = pclose_if (gp st) \<and>
    data_lines (outfile s') = data_lines (outfile st) \<and>
    (\<exists>cmds. bus s' = bus st @ cmds \<and> reset_cmd \<notin> set cmds)"
proof (cases rule: ramp_section_cases [of st w])
  case static
  then show ?thesis using assms by simp
next
  case ended
  then show ?thesis using assms by simp
next
  case step
  then show ?thesis using assms by simp
next
  case turn
  then show ?thesis using assms by simp
next
  case fail
  then have "s' = (snd (step_and_send True (if limit_reached st then reverse st else st)))
      \<lparr>outfile := fclose (outfile (snd (step_and_send True (if limit_reached st then reverse st else st)))),
       gp := pclose_if (gp (snd (step_and_send True (if limit_reached st then reverse st else st)))),
       kbd_raw := False\<rparr>" and "c = ERR_INST"
    using assms by (simp_all add: quit_loop_eq)
  then show ?thesis
    using fail(3)
    by (cases "limit_reached st")
      (simp_all add: step_and_send_eq reverse_def fclose_def fprintf_def data_lines_def)
qed

lemma sample_section_Return:
  assumes "sample_section i st = Return c s'"
  shows "c = ERR_INST \<and> (failed (vout_in i) \<or> failed (iout_in i)) \<and>
    \<not> is_open (outfile s') \<and> synced (outfile s') = written (outfile s') \<and>
    \<not> kbd_raw s' \<and> gp s' = pclose_if (gp st) \<and>
    written (outfile s') = written (outfile st) \<and>
    (bus s' = bus st @ [''VOUT?'' @ [NL]] \<or>
     bus s' = bus st @ [''VOUT?'' @ [NL], ''IOUT?'' @ [NL]])"
  using assms
  by (cases i st rule: sample_section_cases) (auto simp: quit_loop_eq fclose_def)

subsection \<open>The program around the loop\<close>

lemma plot_defaults_gp: "\<exists>g. plot_defaults st = st\<lparr>gp := g\<rparr>"
proof (cases "do_graph st")
  case True
  have "plot_defaults st = st\<lparr>gp := gp (plot_defaults st)\<rparr>"
    unfolding plot_defaults_def if_P [OF True] by simp
  then show ?thesis ..
next
  case False
  then have "plot_defaults st = st\<lparr>gp := gp st\<rparr>"
    by (simp add: plot_defaults_def)
  then show ?thesis ..
qed

text \<open>What opening the instrument leaves as it was.\<close>

lemma connect_frame:
  "ramp (connect e st) = ramp st" "dramp (connect e st) = dramp st"
  "dramp_avail (connect e st) = dramp_avail st"
  "set_volt (connect e st) = set_volt st" "max_volt (connect e st) = max_volt st"
  "set_amp (connect e st) = set_amp st" "set_limvolt (connect e st) = set_limvolt st"
  "do_ocp (connect e st) = do_ocp st" "delay (connect e st) = delay st"
  "do_flush (connect e st) = do_flush st" "loop (connect e st) = loop st"
  "do_keypress (connect e st) = do_keypress st" "comment (connect e st) = comment st"
  "filename (connect e st) = filename st"
proof -
  obtain g where g: "plot_defaults (prepare (popen_ok e) st) = (prepare (popen_ok e) st)\<lparr>gp := g\<rparr>"
    using plot_defaults_gp by blast
  obtain i b where ib: "hp663X_open (ibdev_ud e) (open_err e)
      (do_reset (prepare (popen_ok e) st)) (bus (prepare (popen_ok e) st)) = (i, b)"
    by (cases "hp663X_open (ibdev_ud e) (open_err e)
      (do_reset (prepare (popen_ok e) st)) (bus (prepare (popen_ok e) st))")
  have c: "connect e st = (prepare (popen_ok e) st)\<lparr>inst := i, gp := g, bus := b\<rparr>"
    by (simp add: connect_def g ib)
  show "ramp (connect e st) = ramp st" "dramp (connect e st) = dramp st"
    "dramp_avail (connect e st) = dramp_avail st"
    "set_volt (connect e st) = set_volt st" "max_volt (connect e st) = max_volt st"
    "set_amp (connect e st) = set_amp st" "set_limvolt (connect e st) = set_limvolt st"
    "do_ocp (connect e st) = do_ocp st" "delay (connect e st) = delay st"
    "do_flush (connect e st) = do_flush st" "loop (connect e st) = loop st"
    "do_keypress (connect e st) = do_keypress st" "comment (connect e st) = comment st"
    "filename (connect e st) = filename st"
    by (simp_all add: c prepare_def Let_def)
qed


lemma configure_eq:
  "configure e st = (if setup_err e then 0 else 1,
     st\<lparr>bus := bus st @ [''VSET '' @ fmt_f 6 (if 0 < ramp st then 0 else set_volt st) @
       '';ISET '' @ fmt_f 6 (set_amp st) @ '';OVSET '' @ fmt_f 6 (set_limvolt st) @
       '';OCP '' @ (if do_ocp st then ''1'' else ''0'') @ [NL]]\<rparr>)"
  by (simp add: configure_def hp663X_setup_def)

lemma enter_loop_eq:
  "enter_loop e st = st\<lparr>key := 0, t0 := start_clock e,
     ramp_volt := (if 0 < ramp st then set_volt st else max_volt st),
     outfile := fprintf (fprintf (fprintf (fprintf (outfile st)
       (''# hp6633 '' @ VERSION @ [NL]))
       (''# '' @ comment st @ [NL]))
       (''# Start: '' @ start_ctime e))
       (''# min'' @ [TAB] @ ''Volt'' @ [TAB] @ ''Ampere'' @ [NL]),
     kbd_raw := True\<rparr>"
  by (simp add: enter_loop_def write_header_def)

text \<open>Once the loop is entered, \<^verbatim>\<open>main\<close> ends as the loop does.\<close>

lemma main_loop:
  assumes "enters_loop e st"
  shows "main e st =
    (case acquire (loop_start e st) (cycles e) of
       Continue s \<Rightarrow> (Running, s)
     | Fault s \<Rightarrow> (Faulted, s)
     | Return c s \<Rightarrow> (Returned c, s)
     | Break s \<Rightarrow> finish e (leave_loop e s))"
proof -
  obtain ok s2 where c: "configure e (connect e st) = (ok, s2)"
    by (cases "configure e (connect e st)")
  have "delay s2 = delay st"
    using c by (auto simp: configure_eq connect_frame)
  then show ?thesis
    using assms c by (simp add: main_def enters_loop_def loop_start_def)
qed

lemma finish_frame:
  "bus (snd (finish e st)) = bus st @ (if do_reset st then [reset_cmd] else [])"
  "outfile (snd (finish e st)) = outfile st"
  by (simp_all add: finish_def hp663X_close_def Let_def)

subsection \<open>How a pass can end\<close>

lemma cycle_Return:
  assumes "cycle st i = Return c s'"
  shows "c = ERR_INST \<and> (vset_err i \<or> failed (vout_in i) \<or> failed (iout_in i)) \<and>
    \<not> is_open (outfile s') \<and> synced (outfile s') = written (outfile s') \<and>
    \<not> kbd_raw s' \<and> gp s' = pclose_if (gp st) \<and>
    data_lines (outfile s') = data_lines (outfile st) \<and>
    (\<exists>cmds. bus s' = bus st @ cmds \<and> reset_cmd \<notin> set cmds)"
proof -
  from assms consider
    (ramp) "ramp_section (vset_err i) st = Return c s'"
  | (sample) s1 where "ramp_section (vset_err i) st = Continue s1" "sample_section i s1 = Return c s'"
    by (auto simp: cycle_def and_then_Return and_then_Continue refresh_section_not_Return)
  then show ?thesis
  proof cases
    case ramp
    from ramp_section_Return [OF this] show ?thesis
      by simp
  next
    case sample
    from ramp_section_Continue_bus [OF sample(1)] obtain pre where
      pre: "bus s1 = bus st @ pre" "reset_cmd \<notin> set pre"
      by blast
    from sample_section_Return [OF sample(2)] have
      s: "c = ERR_INST" "failed (vout_in i) \<or> failed (iout_in i)" "\<not> is_open (outfile s')"
        "synced (outfile s') = written (outfile s')" "\<not> kbd_raw s'" "gp s' = pclose_if (gp s1)"
        "written (outfile s') = written (outfile s1)"
        "bus s' = bus s1 @ [''VOUT?'' @ [NL]] \<or> bus s' = bus s1 @ [''VOUT?'' @ [NL], ''IOUT?'' @ [NL]]"
      by simp_all
    have "data_lines (outfile s') = data_lines (outfile st)"
      using s(7) ramp_section_Continue_frame(5) [OF sample(1)] by (simp add: data_lines_def)
    moreover have "\<exists>cmds. bus s' = bus st @ cmds \<and> reset_cmd \<notin> set cmds"
      using s(8) pre by auto
    ultimately show ?thesis
      using s ramp_section_Continue_frame(1) [OF sample(1)] by simp
  qed
qed

lemma cycle_Break:
  assumes "cycle st i = Break s'"
  shows "s' = st\<lparr>key := ESC\<rparr> \<and> ramp st \<noteq> 0 \<and> limit_reached st \<and> \<not> dramp st"
proof -
  from assms have "ramp_section (vset_err i) st = Break s'"
    by (auto simp: cycle_def and_then_Break and_then_Continue refresh_section_not_Break
        sample_section_not_Break)
  then show ?thesis
    by (cases rule: ramp_section_cases [of st "vset_err i"]) (simp_all add: quit_loop_eq)
qed

lemma cycle_Continue_bus:
  assumes "cycle st i = Continue s'"
  shows "\<exists>cmds. bus s' = bus st @ cmds \<and> reset_cmd \<notin> set cmds"
proof -
  from assms obtain s1 where r: "ramp_section (vset_err i) st = Continue s1"
    and b: "bus s' = bus s1 @ [''VOUT?'' @ [NL], ''IOUT?'' @ [NL]]"
    by (rule cycle_Continue)
  from ramp_section_Continue_bus [OF r] obtain pre where "bus s1 = bus st @ pre" "reset_cmd \<notin> set pre"
    by blast
  with b show ?thesis
    by auto
qed

subsection \<open>How the loop can end\<close>

lemma acquire_Return:
  assumes "acquire st ins = Return c s'"
  shows "c = ERR_INST \<and> \<not> is_open (outfile s') \<and> synced (outfile s') = written (outfile s') \<and>
    (\<forall>xs. gp s' \<noteq> Pipe_open xs) \<and> \<not> kbd_raw s' \<and>
    (\<exists>cmds. bus s' = bus st @ cmds \<and> reset_cmd \<notin> set cmds)"
  using assms
proof (induction ins arbitrary: st)
  case Nil
  then show ?case by simp
next
  case (Cons i ins)
  show ?case
  proof (cases "cycle st i")
    case (Continue s1)
    with Cons.prems have "acquire s1 ins = Return c s'"
      by (simp split: if_splits)
    from Cons.IH [OF this] cycle_Continue_bus [OF Continue] show ?thesis
      by auto
  next
    case (Break s1)
    with Cons.prems show ?thesis by simp
  next
    case (Return c1 s1)
    with Cons.prems have eq: "c1 = c" "s1 = s'"
      by simp_all
    from cycle_Return [OF Return] have "gp s1 = pclose_if (gp st)"
      by simp
    then have "\<forall>xs. gp s1 \<noteq> Pipe_open xs"
      by (cases "gp st") simp_all
    with cycle_Return [OF Return] eq show ?thesis
      by simp
  next
    case (Fault s1)
    with Cons.prems show ?thesis by simp
  qed
qed








subsection \<open>Writing and reading decimal numbers\<close>

lemma split_at_ne: "split_at c s \<noteq> []"
  by (induction s) (auto split: list.splits)






















section \<open>Values of the concrete runs\<close>

lemma replies_answered:
  "answered (Reply volt_reply)" "answered (Reply amp_reply)" "answered (Reply bad_reply)"
  by (simp_all add: answered_def volt_reply_def amp_reply_def bad_reply_def)

lemma replies_reading:
  "reading (Reply volt_reply) = '' 12.009''" "reading (Reply amp_reply) = ''-0.0005''"
  "reading (Reply bad_reply) = ''ERROR''"
  by (simp_all add: reading_def reply_text_def volt_reply_def amp_reply_def bad_reply_def)

lemma replies_scanned:
  "sscanf_f '' 12.009'' = Some (12592349 / 1048576)"
  "sscanf_f ''-0.0005'' = Some (- (8589935 / 17179869184))"
  "sscanf_f ''ERROR'' = None"
  by (simp_all add: scan_eval fl_eval)


lemma pass_at_simps:
  "vset_err (pass_at t) = False" "vout_in (pass_at t) = Reply volt_reply"
  "iout_in (pass_at t) = Reply amp_reply" "clock (pass_at t) = t" "kbd (pass_at t) = None"
  by (simp_all add: pass_at_def)




lemmas run_start = main_def connect_def configure_def enter_loop_def leave_loop_def prepare_def
  plot_defaults_def write_header_def finish_def hp663X_open_def hp663X_setup_def
  hp663X_close_def fopen_w_def fprintf_def fflush_def fclose_def bench_def startup_def

lemmas run_pass = cycle_def ramp_section_def step_and_send_eq reverse_def limit_reached_def
  sample_section_answered refresh_section_eq poll_section_def quit_loop_eq go_on_def
  sample_line_def scan_into_def

lemma add_ramp_vals:
  "add_ramp 0 1000 = 1" "add_ramp 1 1000 = 2" "add_ramp 2 1000 = 3" "add_ramp 3 1000 = 4"
  "add_ramp 4 1000 = 5" "add_ramp 5 1000 = 6"
  "add_ramp 6 (- 1000) = 5" "add_ramp 5 (- 1000) = 4" "add_ramp 4 (- 1000) = 3"
  "add_ramp 3 (- 1000) = 2" "add_ramp 2 (- 1000) = 1" "add_ramp 1 (- 1000) = 0"
  "add_ramp 0 (- 1000) = - 1"
  using add_ramp_up_1000 [of 0] add_ramp_up_1000 [of 1] add_ramp_up_1000 [of 2]
    add_ramp_up_1000 [of 3] add_ramp_up_1000 [of 4] add_ramp_up_1000 [of 5]
    add_ramp_down_1000 [of 6] add_ramp_down_1000 [of 5] add_ramp_down_1000 [of 4]
    add_ramp_down_1000 [of 3] add_ramp_down_1000 [of 2] add_ramp_down_1000 [of 1]
    add_ramp_down_1000 [of 0]
  by simp_all

lemma minute_passes_7:
  "minute_passes 7 = [pass_at 1060, pass_at 1120, pass_at 1180, pass_at 1240, pass_at 1300,
     pass_at 1360, pass_at 1420]"
  by (simp add: minute_passes_def upt_rec)

lemmas run_values = pass_at_simps replies_answered replies_reading replies_scanned
  f64_numeral f64_small fmt_eval add_ramp_vals

lemma minute_passes_3:
  "minute_passes 3 = [pass_at 1060, pass_at 1120, pass_at 1180]"
  by (simp add: minute_passes_def upt_rec)

lemma minute_passes_14:
  "minute_passes 14 = [pass_at 1060, pass_at 1120, pass_at 1180, pass_at 1240, pass_at 1300,
     pass_at 1360, pass_at 1420, pass_at 1480, pass_at 1540, pass_at 1600, pass_at 1660,
     pass_at 1720, pass_at 1780, pass_at 1840]"
  by (simp add: minute_passes_def upt_rec)

section \<open>The claims\<close>




text \<open>
  C1, the run of the program for the single ramp from 0 V to 5 V in steps of 1000 mV. The
  limit is tested before the setpoint is advanced (lines 424 and 441), so the pass that finds
  the setpoint at 5.0 still advances it: the commands sent are \<^verbatim>\<open>VSET\<close> 1.0 to 6.0, six data lines
  are written, and the seventh pass leaves the loop.
\<close>

theorem single_ramp_0_5_run:
  "case main (bench (minute_passes 7)) ramp_0_5 of
     (out, s) \<Rightarrow> out = Returned 0 \<and>
       vset_commands (bus s) =
         [''VSET 1.000000'' @ [NL], ''VSET 2.000000'' @ [NL], ''VSET 3.000000'' @ [NL],
          ''VSET 4.000000'' @ [NL], ''VSET 5.000000'' @ [NL], ''VSET 6.000000'' @ [NL]] \<and>
       length (data_lines (outfile s)) = 6"
  by (simp add: minute_passes_7 ramp_0_5_def run_start run_pass run_values vset_commands_def
      data_lines_def is_data_line_def)

text \<open>
  C4, the run for the single ramp downwards from 2 V to 0 V in steps of 1000 mV. After
  \<open>\<lceil>2 / 1\<rceil> + 1 = 3\<close> passes the loop has not been left, and the third pass has sent the
  setpoint -1.0, below the lower end of the ramp.
\<close>

theorem downward_ramp_2_0_run:
  "case main (bench (minute_passes 3)) ramp_2_0 of
     (out, s) \<Rightarrow> out = Running \<and>
       vset_commands (bus s) =
         [''VSET 1.000000'' @ [NL], ''VSET 0.000000'' @ [NL], ''VSET -1.000000'' @ [NL]]"
  by (simp add: minute_passes_3 ramp_2_0_def run_start run_pass run_values vset_commands_def)

text \<open>
  C5, the run for the dual ramp from 0 V to 5 V in steps of 1000 mV. The setpoint goes up to
  6.0; the pass that finds it there writes the separator and, in the same pass, sends 5.0; the
  way down ends with -1.0. The file holds six data lines, the separator and seven data lines
  between header and footer.
\<close>

theorem dual_ramp_0_5_run:
  "case main (bench (minute_passes 14)) dual_0_5 of
     (out, s) \<Rightarrow> out = Returned 0 \<and>
       vset_commands (bus s) =
         [''VSET 1.000000'' @ [NL], ''VSET 2.000000'' @ [NL], ''VSET 3.000000'' @ [NL],
          ''VSET 4.000000'' @ [NL], ''VSET 5.000000'' @ [NL], ''VSET 6.000000'' @ [NL],
          ''VSET 5.000000'' @ [NL], ''VSET 4.000000'' @ [NL], ''VSET 3.000000'' @ [NL],
          ''VSET 2.000000'' @ [NL], ''VSET 1.000000'' @ [NL], ''VSET 0.000000'' @ [NL],
          ''VSET -1.000000'' @ [NL]] \<and>
       map is_data_line (drop 4 (written (outfile s))) =
         [True, True, True, True, True, True, False, True, True, True, True, True, True, True,
          False] \<and>
       written (outfile s) ! 10 = [NL, NL]"
  by (simp add: minute_passes_14 dual_0_5_def ramp_0_5_def run_start run_pass run_values
      vset_commands_def is_data_line_def)

text \<open>
  C3, the claim as stated fails: with the reset requested (\<^verbatim>\<open>do_reset\<close> is on by default), a
  \<^verbatim>\<open>VSET\<close> command that fails in the first pass ends the run with \<^verbatim>\<open>ERR_INST\<close>; the data file
  is closed, but the failed command is the last one on the bus: no reset is sent,
  \<^verbatim>\<open>hp663X_close\<close> is not called.
\<close>

theorem failure_exit_counterexample:
  "case main (bench [(pass_at 1060)\<lparr>vset_err := True\<rparr>]) ramp_0_5 of
     (out, s) \<Rightarrow> out = Returned ERR_INST \<and> do_reset s \<and> \<not> is_open (outfile s) \<and>
       bus s = [reset_cmd,
                ''VSET 0.000000;ISET 2.000000;OVSET 50.000000;OCP 0'' @ [NL],
                ''VSET 1.000000'' @ [NL]]"
  by (simp add: ramp_0_5_def run_start run_pass run_values)

text \<open>
  C3, as amended. Once the loop is entered, the run ends in one of four ways. On a failure
  exit inside the loop (a \<^verbatim>\<open>VSET\<close> command or a query failed) \<^verbatim>\<open>main\<close> returns \<^verbatim>\<open>ERR_INST\<close> with
  the data file flushed and closed, the plotting pipe not open and the keyboard restored, but
  without calling \<^verbatim>\<open>hp663X_close\<close>: no reset is among the commands sent since the loop was
  entered. When the loop is left regularly (ramp finished or quit key), the data file is
  flushed and closed and \<^verbatim>\<open>hp663X_close\<close> is called: the reset is sent if requested. Otherwise
  the program is still running or has left defined behaviour.
\<close>

theorem exit_paths_of_the_loop:
  assumes "enters_loop e st"
  shows "case acquire (loop_start e st) (cycles e) of
      Return c s \<Rightarrow>
        main e st = (Returned ERR_INST, s) \<and> \<not> is_open (outfile s) \<and>
        synced (outfile s) = written (outfile s) \<and> (\<forall>xs. gp s \<noteq> Pipe_open xs) \<and>
        \<not> kbd_raw s \<and> (\<exists>cmds. bus s = bus (loop_start e st) @ cmds \<and> reset_cmd \<notin> set cmds)
    | Break s \<Rightarrow>
        \<not> is_open (outfile (snd (main e st))) \<and>
        synced (outfile (snd (main e st))) = written (outfile (snd (main e st))) \<and>
        bus (snd (main e st)) = bus s @ (if do_reset s then [reset_cmd] else [])
    | Continue s \<Rightarrow> main e st = (Running, s)
    | Fault s \<Rightarrow> main e st = (Faulted, s)"
proof (cases "acquire (loop_start e st) (cycles e)")
  case (Continue s)
  then show ?thesis
    by (simp add: main_loop [OF assms])
next
  case (Break s)
  then have "main e st = finish e (leave_loop e s)"
    by (simp add: main_loop [OF assms])
  then show ?thesis
    using Break by (simp add: finish_frame leave_loop_def fclose_def)
next
  case (Return c s)
  from acquire_Return [OF this] Return show ?thesis
    by (simp add: main_loop [OF assms])
next
  case (Fault s)
  then show ?thesis
    by (simp add: main_loop [OF assms])
qed

text \<open>
  C3, two instances: the run of C1, which leaves the loop regularly and ends with the reset,
  and the run in which the first \<^verbatim>\<open>VSET\<close> command fails.
\<close>

theorem exit_paths_of_the_loop_witness:
  "enters_loop (bench (minute_passes 7)) ramp_0_5 \<and>
   (\<exists>s. acquire (loop_start (bench (minute_passes 7)) ramp_0_5) (minute_passes 7) = Break s \<and>
      do_reset s \<and>
      \<not> is_open (outfile (snd (main (bench (minute_passes 7)) ramp_0_5))) \<and>
      bus (snd (main (bench (minute_passes 7)) ramp_0_5)) = bus s @ [reset_cmd]) \<and>
   enters_loop (bench [(pass_at 1060)\<lparr>vset_err := True\<rparr>]) ramp_0_5 \<and>
   (\<exists>s. acquire (loop_start (bench [(pass_at 1060)\<lparr>vset_err := True\<rparr>]) ramp_0_5)
          [(pass_at 1060)\<lparr>vset_err := True\<rparr>] = Return ERR_INST s \<and>
      main (bench [(pass_at 1060)\<lparr>vset_err := True\<rparr>]) ramp_0_5 = (Returned ERR_INST, s) \<and>
      \<not> is_open (outfile s) \<and> \<not> kbd_raw s \<and> last (bus s) = ''VSET 1.000000'' @ [NL])"
proof -
  let ?e1 = "bench (minute_passes 7)" and ?e2 = "bench [(pass_at 1060)\<lparr>vset_err := True\<rparr>]"
  have h1: "enters_loop ?e1 ramp_0_5" and h2: "enters_loop ?e2 ramp_0_5"
    by (simp_all add: enters_loop_def ramp_0_5_def run_start)
  have c1: "cycles ?e1 = minute_passes 7" and c2: "cycles ?e2 = [(pass_at 1060)\<lparr>vset_err := True\<rparr>]"
    by (simp_all add: bench_def)
  have a1: "\<exists>s. acquire (loop_start ?e1 ramp_0_5) (minute_passes 7) = Break s \<and> do_reset s"
    by (simp add: minute_passes_7 loop_start_def ramp_0_5_def run_start run_pass run_values)
  have a2: "\<exists>s. acquire (loop_start ?e2 ramp_0_5) [(pass_at 1060)\<lparr>vset_err := True\<rparr>] =
      Return ERR_INST s \<and> last (bus s) = ''VSET 1.000000'' @ [NL]"
    by (simp add: loop_start_def ramp_0_5_def run_start run_pass run_values)
  from exit_paths_of_the_loop [OF h1] a1 c1
  have "\<exists>s. acquire (loop_start ?e1 ramp_0_5) (minute_passes 7) = Break s \<and> do_reset s \<and>
      \<not> is_open (outfile (snd (main ?e1 ramp_0_5))) \<and>
      bus (snd (main ?e1 ramp_0_5)) = bus s @ [reset_cmd]"
    by auto
  moreover from exit_paths_of_the_loop [OF h2] a2 c2
  have "\<exists>s. acquire (loop_start ?e2 ramp_0_5) [(pass_at 1060)\<lparr>vset_err := True\<rparr>] =
      Return ERR_INST s \<and> main ?e2 ramp_0_5 = (Returned ERR_INST, s) \<and>
      \<not> is_open (outfile s) \<and> \<not> kbd_raw s \<and> last (bus s) = ''VSET 1.000000'' @ [NL]"
    by auto
  ultimately show ?thesis
    using h1 h2 by blast
qed

text \<open>
  C10, the claim as stated fails: for the downward ramp from 5 V to 4 V in one step of
  1000 mV the setup command carries \<^verbatim>\<open>set_volt\<close>, 4.0, and the first setpoint sent in the loop
  is \<^verbatim>\<open>max_volt\<close> plus the step, 4.0 as well: the two do not differ.
\<close>

theorem downward_ramp_counterexample:
  "case main (bench [(pass_at 1060)\<lparr>kbd := Some 113\<rparr>]) ramp_5_4 of
     (out, s) \<Rightarrow> out = Returned 0 \<and>
       bus s = [reset_cmd,
                ''VSET 4.000000;ISET 2.000000;OVSET 50.000000;OCP 0'' @ [NL],
                ''VSET 4.000000'' @ [NL], ''VOUT?'' @ [NL], ''IOUT?'' @ [NL],
                reset_cmd]"
  using add_ramp_down_1000 [of 5]
  by (simp add: ramp_5_4_def run_start run_pass run_values)

text \<open>
  C10, as amended. The setup command sent before the loop carries the voltage 0.0 when a
  positive ramp step was given and \<^verbatim>\<open>set_volt\<close> otherwise, also for a negative step. The ramp
  starts from \<^verbatim>\<open>set_volt\<close> for a positive step and from \<^verbatim>\<open>max_volt\<close> otherwise; so for a
  downward ramp (whose options passed the checks) the first setpoint sent in the loop is
  \<^verbatim>\<open>max_volt\<close> plus the step, whatever the setup voltage \<^verbatim>\<open>set_volt\<close> was.
\<close>

theorem setup_voltage_and_first_setpoint:
  "bus (snd (configure e (connect e st))) =
     bus (connect e st) @
       [''VSET '' @ fmt_f 6 (if 0 < ramp st then 0 else set_volt st) @
        '';ISET '' @ fmt_f 6 (set_amp st) @ '';OVSET '' @ fmt_f 6 (set_limvolt st) @
        '';OCP '' @ (if do_ocp st then ''1'' else ''0'') @ [NL]] \<and>
   ramp_volt (loop_start e st) = (if 0 < ramp st then set_volt st else max_volt st) \<and>
   (ramp st < 0 \<and> set_volt st \<le> max_volt st \<longrightarrow>
      (\<exists>s. ramp_section False (loop_start e st) = Continue s \<and>
         ramp_volt s = add_ramp (max_volt st) (ramp st) \<and>
         bus s = bus (loop_start e st) @
           [''VSET '' @ fmt_f 6 (add_ramp (max_volt st) (ramp st)) @ [NL]]))"
proof -
  have frame: "ramp (loop_start e st) = ramp st" "set_volt (loop_start e st) = set_volt st"
    "max_volt (loop_start e st) = max_volt st"
    "ramp_volt (loop_start e st) = (if 0 < ramp st then set_volt st else max_volt st)"
    by (simp_all add: loop_start_def enter_loop_eq configure_eq connect_frame)
  have down: "\<exists>s. ramp_section False (loop_start e st) = Continue s \<and>
         ramp_volt s = add_ramp (max_volt st) (ramp st) \<and>
         bus s = bus (loop_start e st) @
           [''VSET '' @ fmt_f 6 (add_ramp (max_volt st) (ramp st)) @ [NL]]"
    if "ramp st < 0" "set_volt st \<le> max_volt st"
  proof -
    have "ramp (loop_start e st) \<noteq> 0" "\<not> limit_reached (loop_start e st)"
      using that by (simp_all add: limit_reached_def frame)
    then have "ramp_section False (loop_start e st) =
        Continue (snd (step_and_send False (loop_start e st)))"
      by (rule ramp_section_step)
    then show ?thesis
      using that by (simp add: step_and_send_eq frame)
  qed
  show ?thesis
    using down by (simp add: configure_eq connect_frame frame)
qed

text \<open>C10, an instance: the downward ramp from 5 V to 4 V.\<close>

theorem setup_voltage_and_first_setpoint_witness:
  "ramp ramp_5_4 < 0 \<and> set_volt ramp_5_4 \<le> max_volt ramp_5_4 \<and>
   last (bus (snd (configure (bench []) (connect (bench []) ramp_5_4)))) =
     ''VSET 4.000000;ISET 2.000000;OVSET 50.000000;OCP 0'' @ [NL] \<and>
   ramp_volt (loop_start (bench []) ramp_5_4) = 5 \<and>
   (\<exists>s. ramp_section False (loop_start (bench []) ramp_5_4) = Continue s \<and>
      ramp_volt s = 4 \<and> last (bus s) = ''VSET 4.000000'' @ [NL])"
proof -
  have v: "ramp ramp_5_4 = - 1000" "set_volt ramp_5_4 = 4" "max_volt ramp_5_4 = 5"
    "set_amp ramp_5_4 = 2" "set_limvolt ramp_5_4 = 50" "do_ocp ramp_5_4 = False"
    by (simp_all add: ramp_5_4_def startup_def)
  have a: "add_ramp 5 (- 1000) = 4"
    using add_ramp_down_1000 [of 5] by simp
  from setup_voltage_and_first_setpoint [of "bench []" ramp_5_4] show ?thesis
    by (auto simp: v a fmt_eval)
qed







end
